theory Spec2Isabelle
  imports Complex_Main
begin

section \<open>JavaScript strings\<close>

text \<open>
  A JavaScript string is a sequence of UTF-16 code units. The model uses \<^typ>\<open>string\<close>: each
  \<^typ>\<open>char\<close> is one code unit in the range 0..255 (ASCII and Latin-1); code units above 255
  are outside the model.
\<close>

abbreviation LF :: char where "LF \<equiv> CHR 0x0A"
abbreviation CR :: char where "CR \<equiv> CHR 0x0D"

text \<open>The characters matched by \<open>\s\<close> and stripped by \<open>trim()\<close>: TAB, LF, VT, FF, CR, SP, NBSP.\<close>

definition is_space :: "char \<Rightarrow> bool" where
  "is_space c \<longleftrightarrow> c \<in> set [CHR 0x09, CHR 0x0A, CHR 0x0B, CHR 0x0C, CHR 0x0D, CHR 0x20, CHR 0xA0]"

text \<open>\<open>String.prototype.trim\<close>.\<close>

definition trim :: "string \<Rightarrow> string" where
  "trim s = rev (dropWhile is_space (rev (dropWhile is_space s)))"

text \<open>\<open>String.prototype.toLowerCase\<close> on one code unit: A-Z and the Latin-1 capitals.\<close>

definition toLowerCase_char :: "char \<Rightarrow> char" where
  "toLowerCase_char c =
     (let n = (of_char c :: nat) in
      if (65 \<le> n \<and> n \<le> 90) \<or> (192 \<le> n \<and> n \<le> 222 \<and> n \<noteq> 215)
      then char_of (n + 32) else c)"

definition toLowerCase :: "string \<Rightarrow> string" where
  "toLowerCase s = map toLowerCase_char s"

text \<open>\<open>s.replace(/\s+/g, '')\<close>: every run of whitespace is deleted, so no whitespace is left.\<close>

definition remove_spaces :: "string \<Rightarrow> string" where
  "remove_spaces s = filter (\<lambda>c. \<not> is_space c) s"

section \<open>JavaScript values\<close>

text \<open>
  A number is NaN, an infinity, or a finite double, which the model holds as the rational
  number it denotes. The model adds such numbers exactly. For the integers that a list index
  can be the double sums are exact too, and a start offset too large for that lies past the
  end of every list in the model and in the code alike.
\<close>

datatype jsnumber = NaN | Finite rat | PosInfinity | NegInfinity

text \<open>
  The value of a field of a JSON request body: absent (\<open>undefined\<close>), \<open>null\<close>, a boolean, a
  number or a string. Arrays and objects are outside the model.
\<close>

datatype json = JUndefined | JNull | JBool bool | JNum rat | JStr string

text \<open>Whether \<open>v || d\<close> keeps \<open>v\<close>, and \<open>v || d\<close> itself.\<close>

definition truthy :: "json \<Rightarrow> bool" where
  "truthy v =
     (case v of
        JUndefined \<Rightarrow> False
      | JNull \<Rightarrow> False
      | JBool b \<Rightarrow> b
      | JNum r \<Rightarrow> r \<noteq> 0
      | JStr s \<Rightarrow> s \<noteq> [])"

definition or_json :: "json \<Rightarrow> json \<Rightarrow> json" where
  "or_json v d = (if truthy v then v else d)"

text \<open>\<open>n || d\<close> for a number: the default replaces NaN and 0, and nothing else.\<close>

definition number_or :: "jsnumber \<Rightarrow> jsnumber \<Rightarrow> jsnumber" where
  "number_or n d =
     (case n of
        NaN \<Rightarrow> d
      | Finite r \<Rightarrow> if r = 0 then d else Finite r
      | PosInfinity \<Rightarrow> PosInfinity
      | NegInfinity \<Rightarrow> NegInfinity)"

definition is_positive :: "jsnumber \<Rightarrow> bool" where
  "is_positive n = (case n of Finite r \<Rightarrow> 0 < r | PosInfinity \<Rightarrow> True | _ \<Rightarrow> False)"

definition is_negative :: "jsnumber \<Rightarrow> bool" where
  "is_negative n = (case n of Finite r \<Rightarrow> r < 0 | NegInfinity \<Rightarrow> True | _ \<Rightarrow> False)"

section \<open>Name extraction from delimited text\<close>

text \<open>
  \<open>text.split(/\r?\n|;|,/)\<close>: the scan goes left to right; at each position the separator is
  CR LF, or LF, or a semicolon, or a comma. A CR that no LF follows stays in its token. The
  first argument is the token read so far.
\<close>

function split_sep :: "string \<Rightarrow> string \<Rightarrow> string list" where
  "split_sep cur [] = [cur]"
| "split_sep cur (c # cs) =
     (if c = CR \<and> take 1 cs = [LF] then cur # split_sep [] (drop 1 cs)
      else if c = LF \<or> c = CHR '';'' \<or> c = CHR '','' then cur # split_sep [] cs
      else split_sep (cur @ [c]) cs)"
  by pat_completeness auto
termination
  by (relation "measure (\<lambda>(cur, s). length s)") auto

definition is_header :: "string \<Rightarrow> bool" where
  "is_header t \<longleftrightarrow> remove_spaces (toLowerCase t) = ''liste''"

definition parseNamesFromText :: "string \<Rightarrow> string list" where
  "parseNamesFromText text =
     (let raw = filter (\<lambda>t. t \<noteq> []) (map trim (split_sep [] text));
          cleaned = filter (\<lambda>t. \<not> is_header t) raw
      in cleaned)"

text \<open>
  The extraction rule in the specification's words: split, trim, drop the empty tokens, drop
  the tokens that match the placeholder \<open>liste\<close> up to letter case.
\<close>

definition parseNames_spec :: "string \<Rightarrow> string list" where
  "parseNames_spec text =
     filter (\<lambda>t. toLowerCase t \<noteq> ''liste'')
       (filter (\<lambda>t. t \<noteq> []) (map trim (split_sep [] text)))"

text \<open>
  A delimited text written as its tokens: a first token, then separator and token pairs.
\<close>

fun join_tokens :: "string \<Rightarrow> (char \<times> string) list \<Rightarrow> string" where
  "join_tokens t [] = t"
| "join_tokens t ((s, u) # rest) = t @ s # join_tokens u rest"

definition is_sep :: "char \<Rightarrow> bool" where
  "is_sep c \<longleftrightarrow> c = LF \<or> c = CHR '';'' \<or> c = CHR '',''"

section \<open>Extraction from an uploaded file\<close>

datatype error =
  ReadError | ParseError | RenderError | ConvertError | WriteError | TypeError

text \<open>
  The file system and the document libraries as \<open>extractNamesFromFile\<close> sees them. Each
  function returns \<open>None\<close>, or the error, where the call throws (or its promise rejects).
  \<^item> \<open>readFileSync\<close>: the content of the file at a path;
  \<^item> \<open>xlsx_cells\<close>: \<open>xlsx.readFile\<close> followed by \<open>sheet_to_json\<close> on the first sheet: the rows
    of cells, a cell being \<open>None\<close> for null or undefined and else its \<open>String(c)\<close>;
  \<^item> \<open>mammoth_text\<close>: the \<open>value\<close> of \<open>mammoth.extractRawText\<close> (\<open>None\<close> inside when absent);
  \<^item> \<open>pdf_text\<close>: the import of \<open>pdf-parse\<close> and the parse of the buffer, giving \<open>data.text\<close>.
\<close>

record reader =
  readFileSync :: "string \<Rightarrow> string option"
  xlsx_cells :: "string \<Rightarrow> error + string option list list"
  mammoth_text :: "string \<Rightarrow> error + string option"
  pdf_text :: "string \<Rightarrow> string option option"

text \<open>\<open>value || ''\<close> for a string that may be absent.\<close>

definition or_empty :: "string option \<Rightarrow> string" where
  "or_empty v = (case v of None \<Rightarrow> [] | Some s \<Rightarrow> s)"

text \<open>
  \<open>extractNamesFromFile\<close>. The argument \<open>extname\<close> is \<open>path.extname(filePath)\<close>. The result is
  the error thrown or the names, and whether a warning was logged.
\<close>

definition extractNamesFromFile :: "reader \<Rightarrow> string \<Rightarrow> string \<Rightarrow> (error + string list) \<times> bool" where
  "extractNamesFromFile rd extname filePath =
     (let ext = toLowerCase extname in
      if ext = ''.csv'' then
        (case readFileSync rd filePath of
           None \<Rightarrow> (Inl ReadError, False)
         | Some content \<Rightarrow> (Inr (parseNamesFromText content), False))
      else if ext = ''.xlsx'' \<or> ext = ''.xls'' then
        (case xlsx_cells rd filePath of
           Inl err \<Rightarrow> (Inl err, False)
         | Inr rows \<Rightarrow>
             (let cells = List.map_filter (\<lambda>v. v) (concat rows)
              in (Inr (filter (\<lambda>s. s \<noteq> []) (map trim cells)), False)))
      else if ext = ''.docx'' then
        (case mammoth_text rd filePath of
           Inl err \<Rightarrow> (Inl err, False)
         | Inr v \<Rightarrow> (Inr (parseNamesFromText (or_empty v)), False))
      else if ext = ''.pdf'' then
        (case readFileSync rd filePath of
           None \<Rightarrow> (Inr [], True)
         | Some dataBuffer \<Rightarrow>
             (case pdf_text rd dataBuffer of
                None \<Rightarrow> (Inr [], True)
              | Some t \<Rightarrow> (Inr (parseNamesFromText (or_empty t)), False)))
      else
        (case readFileSync rd filePath of
           None \<Rightarrow> (Inr [], False)
         | Some content \<Rightarrow> (Inr (parseNamesFromText content), False)))"

section \<open>The text layer\<close>

text \<open>
  The environment of the handlers: two conversions of the language, the work directory, and
  which calls into the image library, the file system and the archiver succeed.
  \<^item> \<open>StringToNumber\<close>: the number that \<open>Number(s)\<close> gives for a string;
  \<^item> \<open>NumberToString\<close>: the text that \<open>String(n)\<close> gives for a finite number;
  \<^item> \<open>metadata\<close>: \<open>sharp(modelPath).metadata()\<close>, the width and height when known;
  \<^item> \<open>composite_ok\<close>: the composite of the SVG text over the template;
  \<^item> \<open>jpeg_ok\<close>: the conversion of the PNG at a path to JPEG;
  \<^item> \<open>write_ok\<close>: \<open>writeFile\<close> to a path; \<open>archive_ok\<close>: the archive of a directory;
  \<^item> \<open>rm_ok\<close>: \<open>rmSync\<close> of a path; \<open>transfer_ok\<close>: the transfer of a download.
\<close>

record env =
  StringToNumber :: "string \<Rightarrow> jsnumber"
  NumberToString :: "rat \<Rightarrow> string"
  workDir :: string
  metadata :: "string \<Rightarrow> (nat option \<times> nat option) option"
  composite_ok :: "string \<Rightarrow> string \<Rightarrow> bool"
  jpeg_ok :: "string \<Rightarrow> bool"
  write_ok :: "string \<Rightarrow> bool"
  archive_ok :: "string \<Rightarrow> bool"
  rm_ok :: "string \<Rightarrow> bool"
  transfer_ok :: "string \<Rightarrow> bool"

text \<open>\<open>Number(v)\<close>.\<close>

definition ToNumber :: "env \<Rightarrow> json \<Rightarrow> jsnumber" where
  "ToNumber e v =
     (case v of
        JUndefined \<Rightarrow> NaN
      | JNull \<Rightarrow> Finite 0
      | JBool b \<Rightarrow> Finite (if b then 1 else 0)
      | JNum r \<Rightarrow> Finite r
      | JStr s \<Rightarrow> StringToNumber e s)"

text \<open>The text of a number and of a value inside a template literal.\<close>

definition String_of_number :: "env \<Rightarrow> jsnumber \<Rightarrow> string" where
  "String_of_number e n =
     (case n of
        NaN \<Rightarrow> ''NaN''
      | Finite r \<Rightarrow> NumberToString e r
      | PosInfinity \<Rightarrow> ''Infinity''
      | NegInfinity \<Rightarrow> ''-Infinity'')"

definition ToString :: "env \<Rightarrow> json \<Rightarrow> string" where
  "ToString e v =
     (case v of
        JUndefined \<Rightarrow> ''undefined''
      | JNull \<Rightarrow> ''null''
      | JBool b \<Rightarrow> (if b then ''true'' else ''false'')
      | JNum r \<Rightarrow> NumberToString e r
      | JStr s \<Rightarrow> s)"

text \<open>The overlay fields of a request body, each any value.\<close>

record overlay =
  pos_x :: json
  pos_y :: json
  fontFamily :: json
  fontSize :: json
  color :: json

text \<open>
  The constants of \<open>buildSVGText\<close>: the escaped text, the font family, the font size in
  pixels and the fill colour, with the position and the canvas size it is given.
\<close>

record text_layer =
  safeText :: string
  ff :: json
  fsPx :: jsnumber
  fill :: json
  text_x :: json
  text_y :: json
  width :: nat
  height :: nat

text \<open>\<open>s.replace(/c/g, r)\<close> for one character \<open>c\<close>.\<close>

definition replace_char :: "char \<Rightarrow> string \<Rightarrow> string \<Rightarrow> string" where
  "replace_char c r s = concat (map (\<lambda>d. if d = c then r else [d]) s)"

text \<open>The escape of the text: first the ampersands, then the two angle brackets.\<close>

definition escape_markup :: "string \<Rightarrow> string" where
  "escape_markup text =
     replace_char (CHR ''>'') ''&gt;''
       (replace_char (CHR ''<'') ''&lt;'' (replace_char (CHR ''&'') ''&amp;'' text))"

text \<open>The text is always a string here, so \<open>text || ''\<close> is the text.\<close>

definition layer_of :: "env \<Rightarrow> string \<Rightarrow> overlay \<Rightarrow> nat \<Rightarrow> nat \<Rightarrow> text_layer" where
  "layer_of e text ov w h =
     \<lparr> safeText = escape_markup text,
       ff = or_json (fontFamily ov) (JStr ''Arial''),
       fsPx = number_or (ToNumber e (fontSize ov)) (Finite 48),
       fill = or_json (color ov) (JStr ''#000000''),
       text_x = pos_x ov, text_y = pos_y ov, width = w, height = h \<rparr>"

abbreviation DQ :: char where "DQ \<equiv> CHR 0x22"
abbreviation SQ :: char where "SQ \<equiv> CHR 0x27"

text \<open>
  The template literal that \<open>buildSVGText\<close> returns. Only \<open>safeText\<close> is escaped: the other
  values enter the markup as their text.
\<close>

definition svg_markup :: "env \<Rightarrow> text_layer \<Rightarrow> string" where
  "svg_markup e l =
     ''<?xml version='' @ [DQ] @ ''1.0'' @ [DQ] @ '' encoding='' @ [DQ] @ ''UTF-8'' @ [DQ] @ ''?>'' @ [LF] @
     ''<svg width='' @ [DQ] @ NumberToString e (of_nat (width l)) @ [DQ] @
     '' height='' @ [DQ] @ NumberToString e (of_nat (height l)) @ [DQ] @
     '' viewBox='' @ [DQ] @ ''0 0 '' @ NumberToString e (of_nat (width l)) @ '' '' @
       NumberToString e (of_nat (height l)) @ [DQ] @
     '' xmlns='' @ [DQ] @ ''http://www.w3.org/2000/svg'' @ [DQ] @ ''>'' @ [LF] @
     ''  <style>'' @ [LF] @
     ''    .t { font-family: '' @ [SQ] @ ToString e (ff l) @ [SQ] @
     ''; font-size: '' @ String_of_number e (fsPx l) @ ''px; fill: '' @ ToString e (fill l) @
     ''; dominant-baseline: hanging; }'' @ [LF] @
     ''  </style>'' @ [LF] @
     ''  <text x='' @ [DQ] @ ToString e (text_x l) @ [DQ] @ '' y='' @ [DQ] @ ToString e (text_y l) @ [DQ] @
     '' class='' @ [DQ] @ ''t'' @ [DQ] @ ''>'' @ safeText l @ ''</text>'' @ [LF] @
     ''</svg>''"

definition buildSVGText :: "env \<Rightarrow> string \<Rightarrow> overlay \<Rightarrow> nat \<Rightarrow> nat \<Rightarrow> string" where
  "buildSVGText e text ov w h = svg_markup e (layer_of e text ov w h)"

section \<open>Files\<close>

text \<open>An image: a PNG or a JPEG of a template with an SVG text laid over it.\<close>

datatype image = Png string string | Jpg string string

datatype node = Dir | Data string | Image image | Zip "string \<Rightarrow> image option"

type_synonym filesystem = "string \<Rightarrow> node option"

text \<open>
  \<open>path.join(a, b)\<close>, for components that hold no slash and are neither empty nor dots, as
  the session identifiers and the artifact file names are.
\<close>

definition path_join :: "string \<Rightarrow> string \<Rightarrow> string" where
  "path_join a b = a @ ''/'' @ b"

definition existsSync :: "filesystem \<Rightarrow> string \<Rightarrow> bool" where
  "existsSync fs p \<longleftrightarrow> p \<noteq> [] \<and> fs p \<noteq> None"

text \<open>\<open>if (!fs.existsSync(d)) fs.mkdirSync(d, { recursive: true })\<close>, for the directory itself.\<close>

definition ensure_dir :: "filesystem \<Rightarrow> string \<Rightarrow> filesystem" where
  "ensure_dir fs d = (if existsSync fs d then fs else fs(d \<mapsto> Dir))"

text \<open>
  The same for a directory whose parent may be missing as well: \<open>recursive\<close> makes the parent
  too.
\<close>

definition ensure_dirs :: "filesystem \<Rightarrow> string \<Rightarrow> string \<Rightarrow> filesystem" where
  "ensure_dirs fs parent d = (if existsSync fs d then fs else (ensure_dir fs parent)(d \<mapsto> Dir))"

text \<open>\<open>fs.rmSync(p, { recursive: true, force: true })\<close> when it succeeds: the path and all below it go.\<close>

definition rm_recursive :: "filesystem \<Rightarrow> string \<Rightarrow> filesystem" where
  "rm_recursive fs p = (\<lambda>q. if q = p \<or> take (length p + 1) q = p @ ''/'' then None else fs q)"

text \<open>The image files directly inside a directory, by file name: what the archive of it holds.\<close>

definition dir_images :: "filesystem \<Rightarrow> string \<Rightarrow> string \<Rightarrow> image option" where
  "dir_images fs d = (\<lambda>name.
     if CHR ''/'' \<in> set name then None
     else (case fs (path_join d name) of Some (Image i) \<Rightarrow> Some i | _ \<Rightarrow> None))"

text \<open>\<open>n || d\<close> for a dimension that may be absent.\<close>

definition dim_or :: "nat option \<Rightarrow> nat \<Rightarrow> nat" where
  "dim_or v d = (case v of None \<Rightarrow> d | Some n \<Rightarrow> if n = 0 then d else n)"

definition composeImageWithText ::
  "env \<Rightarrow> string \<Rightarrow> string \<Rightarrow> string \<Rightarrow> overlay \<Rightarrow> filesystem \<Rightarrow> (error + unit) \<times> filesystem" where
  "composeImageWithText e modelPath outPath text ov fs =
     (case metadata e modelPath of
        None \<Rightarrow> (Inl RenderError, fs)
      | Some (mw, mh) \<Rightarrow>
          (let w = dim_or mw 2000;
               h = dim_or mh 1000;
               svg = buildSVGText e text ov w h
           in if \<not> composite_ok e modelPath svg then (Inl RenderError, fs)
              else if \<not> write_ok e outPath then (Inl WriteError, fs)
              else (Inr (), fs(outPath \<mapsto> Image (Png modelPath svg)))))"

section \<open>Sessions\<close>

record session =
  sid :: string
  createdAt :: nat
  modelPath :: "string option"
  listPath :: "string option"
  names :: "string list"
  cleanup :: "string list"

record world =
  sessions :: "string \<Rightarrow> session option"
  files :: filesystem

text \<open>\<open>newSession\<close>, with the fresh identifier and the clock reading as arguments.\<close>

definition newSession :: "string \<Rightarrow> nat \<Rightarrow> world \<Rightarrow> world" where
  "newSession i now w =
     w\<lparr>sessions := (sessions w)(i \<mapsto>
        \<lparr>sid = i, createdAt = now, modelPath = None, listPath = None, names = [], cleanup = []\<rparr>)\<rparr>"

text \<open>
  One turn of the loop of \<open>cleanupSession\<close>: a removal that throws is caught and ignored, and
  leaves the path where it is.
\<close>

definition cleanup_step :: "env \<Rightarrow> filesystem \<Rightarrow> string \<Rightarrow> filesystem" where
  "cleanup_step e fs p =
     (if p \<noteq> [] \<and> existsSync fs p then (if rm_ok e p then rm_recursive fs p else fs) else fs)"

definition cleanupSession :: "env \<Rightarrow> string \<Rightarrow> world \<Rightarrow> world" where
  "cleanupSession e i w =
     (case sessions w i of
        None \<Rightarrow> w
      | Some s \<Rightarrow>
          w\<lparr>files := foldl (cleanup_step e) (files w) (cleanup s),
            sessions := (sessions w)(i := None)\<rparr>)"

section \<open>Batch window\<close>

definition maxBatch :: rat where
  "maxBatch = 50"

text \<open>
  \<open>Math.max(0, Number.isFinite(Number(offset)) ? Number(offset) : 0)\<close>, as a function of
  \<open>Number(offset)\<close>.
\<close>

definition window_start :: "jsnumber \<Rightarrow> rat" where
  "window_start offset = max 0 (case offset of Finite r \<Rightarrow> r | _ \<Rightarrow> 0)"

text \<open>
  \<open>requested ? Math.max(1, Math.min(maxBatch, requested)) : undefined\<close>, as a function of
  \<open>Number(limit)\<close>: \<open>requested\<close> is that number when it is finite, a limit of 0 is falsy and
  counts as no limit, and the limit is not rounded.
\<close>

definition batchSize :: "jsnumber \<Rightarrow> rat option" where
  "batchSize limit =
     (case limit of
        Finite requested \<Rightarrow>
          if requested \<noteq> 0 then Some (max 1 (min maxBatch requested)) else None
      | _ \<Rightarrow> None)"

definition endExclusive :: "nat \<Rightarrow> jsnumber \<Rightarrow> jsnumber \<Rightarrow> rat" where
  "endExclusive len offset limit =
     (case batchSize limit of
        None \<Rightarrow> of_nat len
      | Some b \<Rightarrow> if b \<noteq> 0 then min (of_nat len) (window_start offset + b) else of_nat len)"

text \<open>The indices that \<open>for (let idx = start; idx < endExclusive; idx++)\<close> visits, in order.\<close>

function loop_indices :: "rat \<Rightarrow> rat \<Rightarrow> rat list" where
  "loop_indices idx e = (if idx < e then idx # loop_indices (idx + 1) e else [])"
  by pat_completeness auto
termination
  by (relation "measure (\<lambda>(idx, e). nat \<lceil>e - idx\<rceil>)") (auto, linarith)

declare loop_indices.simps [simp del]

definition window :: "nat \<Rightarrow> jsnumber \<Rightarrow> jsnumber \<Rightarrow> rat list" where
  "window len offset limit =
     loop_indices (window_start offset) (endExclusive len offset limit)"

section \<open>Artifact file names\<close>

definition digit_char :: "nat \<Rightarrow> char" where
  "digit_char d = char_of (48 + d)"

text \<open>\<open>String(n)\<close> for an integer: the decimal digits, after a minus sign when negative.\<close>

function String_of_nat :: "nat \<Rightarrow> string" where
  "String_of_nat n =
     (if n < 10 then [digit_char n] else String_of_nat (n div 10) @ [digit_char (n mod 10)])"
  by pat_completeness auto
termination
  by (relation "measure id") auto

declare String_of_nat.simps [simp del]

definition String_of_int :: "int \<Rightarrow> string" where
  "String_of_int i = (if i < 0 then CHR ''-'' # String_of_nat (nat (- i)) else String_of_nat (nat i))"

text \<open>\<open>s.padStart(n, c)\<close> for a one-character filler.\<close>

definition padStart :: "nat \<Rightarrow> char \<Rightarrow> string \<Rightarrow> string" where
  "padStart n c s = replicate (n - length s) c @ s"

text \<open>
  The characters that \<open>/[^a-z0-9_-]+/gi\<close> leaves alone: the ASCII letters of both cases, the
  digits, the underscore and the hyphen.
\<close>

definition is_slug_char :: "char \<Rightarrow> bool" where
  "is_slug_char c \<longleftrightarrow>
     (let n = (of_char c :: nat) in
      (97 \<le> n \<and> n \<le> 122) \<or> (65 \<le> n \<and> n \<le> 90) \<or> (48 \<le> n \<and> n \<le> 57) \<or>
      c = CHR ''_'' \<or> c = CHR ''-'')"

text \<open>
  \<open>name.replace(/[^a-z0-9_-]+/gi, '_')\<close>: each maximal run of other characters becomes one
  underscore.
\<close>

function sanitize :: "string \<Rightarrow> string" where
  "sanitize [] = []"
| "sanitize (c # cs) =
     (if is_slug_char c then c # sanitize cs
      else CHR ''_'' # sanitize (dropWhile (\<lambda>d. \<not> is_slug_char d) cs))"
  by pat_completeness auto
termination
  by (relation "measure length") (auto simp: less_Suc_eq_le length_dropWhile_le)

declare sanitize.simps [simp del]

text \<open>The first part of a file name: \<open>String(idx + 1).padStart(3, '0')\<close>.\<close>

definition index_prefix :: "int \<Rightarrow> string" where
  "index_prefix idx = padStart 3 (CHR ''0'') (String_of_int (idx + 1))"

definition artifact_filename :: "int \<Rightarrow> string \<Rightarrow> string \<Rightarrow> string" where
  "artifact_filename idx name ext =
     index_prefix idx @ ''-'' @ sanitize name @ ''.'' @ ext"

text \<open>
  The file name in the specification's words: every character outside the set is replaced
  by an underscore.
\<close>

definition sanitize_spec :: "string \<Rightarrow> string" where
  "sanitize_spec name = map (\<lambda>c. if is_slug_char c then c else CHR ''_'') name"

definition artifact_filename_spec :: "int \<Rightarrow> string \<Rightarrow> string \<Rightarrow> string" where
  "artifact_filename_spec idx name ext =
     index_prefix idx @ ''-'' @ sanitize_spec name @ ''.'' @ ext"

text \<open>A name with every run of characters outside the set cut down to its first character.\<close>

fun squeeze_runs :: "string \<Rightarrow> string" where
  "squeeze_runs (c # d # cs) =
     (if \<not> is_slug_char c \<and> \<not> is_slug_char d then squeeze_runs (c # cs)
      else c # squeeze_runs (d # cs))"
| "squeeze_runs cs = cs"

text \<open>The number that a string of decimal digits denotes, leading zeros allowed.\<close>

definition digits_value :: "string \<Rightarrow> nat" where
  "digits_value s = foldl (\<lambda>a c. 10 * a + (of_char c - 48)) 0 s"

definition is_digit :: "char \<Rightarrow> bool" where
  "is_digit c \<longleftrightarrow> 48 \<le> (of_char c :: nat) \<and> (of_char c :: nat) \<le> 57"

section \<open>Request handlers\<close>

datatype response =
  Failure nat string
  | Preview image
  | Generated string rat rat nat
  | Download string bool

text \<open>
  The body of a request: the session identifier, the overlay fields, the format, and the
  offset and limit of the batch, each any value.
\<close>

record request =
  sessionId :: string
  style :: overlay
  req_format :: json
  req_offset :: json
  req_limit :: json

text \<open>\<open>!s.modelPath\<close>: the path is null or empty.\<close>

definition no_model :: "session \<Rightarrow> bool" where
  "no_model s \<longleftrightarrow> (case modelPath s of None \<Rightarrow> True | Some p \<Rightarrow> p = [])"

text \<open>\<open>POST /api/test\<close>.\<close>

definition api_test :: "env \<Rightarrow> request \<Rightarrow> world \<Rightarrow> response \<times> world" where
  "api_test e req w =
     (case sessions w (sessionId req) of
        None \<Rightarrow> (Failure 400 ''Invalid session'', w)
      | Some s \<Rightarrow>
          if no_model s \<or> names s = [] then (Failure 400 ''Missing model or names'', w)
          else
            (let firstName = names s ! 0;
                 outDir = path_join (workDir e) (sessionId req);
                 fs1 = ensure_dir (files w) outDir;
                 outPath = path_join outDir ''test.png''
             in case composeImageWithText e (the (modelPath s)) outPath firstName (style req) fs1 of
                  (Inl err, fs2) \<Rightarrow> (Failure 500 ''Test render failed.'', w\<lparr>files := fs2\<rparr>)
                | (Inr u, fs2) \<Rightarrow>
                    (let s' = s\<lparr>cleanup := cleanup s @ [outDir]\<rparr>;
                         w' = w\<lparr>files := fs2, sessions := (sessions w)(sessionId req \<mapsto> s')\<rparr>
                     in case fs2 outPath of
                          Some (Image data) \<Rightarrow> (Preview data, w')
                        | _ \<Rightarrow> (Failure 500 ''Test render failed.'', w'))))"

text \<open>\<open>outPath.replace(/\.jpg$/, '.png')\<close>.\<close>

definition png_of_jpg :: "string \<Rightarrow> string" where
  "png_of_jpg p =
     (if 4 \<le> length p \<and> drop (length p - 4) p = ''.jpg'' then take (length p - 4) p @ ''.png''
      else p)"

text \<open>\<open>sharp(tmpPng).jpeg({ quality: 90 }).toBuffer()\<close>: the JPEG of the PNG stored at the path.\<close>

definition to_jpeg :: "env \<Rightarrow> filesystem \<Rightarrow> string \<Rightarrow> image option" where
  "to_jpeg e fs p =
     (case fs p of
        Some (Image (Png m l)) \<Rightarrow> if jpeg_ok e p then Some (Jpg m l) else None
      | _ \<Rightarrow> None)"

text \<open>Whether \<open>names[idx]\<close> is an entry of the list: \<open>idx\<close> is an integer within its bounds.\<close>

definition is_index :: "string list \<Rightarrow> rat \<Rightarrow> bool" where
  "is_index ns idx \<longleftrightarrow> of_int \<lfloor>idx\<rfloor> = idx \<and> 0 \<le> idx \<and> idx < of_nat (length ns)"

text \<open>
  The body of the generation loop for one index. An index that is no entry of the list makes
  \<open>name\<close> undefined, and \<open>name.replace\<close> throws before any file is written. For an entry of the
  list, \<open>i\<close> is the index as an integer.
\<close>

definition generate_step ::
  "env \<Rightarrow> string \<Rightarrow> string list \<Rightarrow> overlay \<Rightarrow> string \<Rightarrow> string \<Rightarrow> rat \<Rightarrow> filesystem
     \<Rightarrow> (error + unit) \<times> filesystem" where
  "generate_step e mp ns ov ext outDir idx fs =
     (if \<not> is_index ns idx then (Inl TypeError, fs)
      else
        (let i = \<lfloor>idx\<rfloor>;
             name = ns ! nat i;
             filename = artifact_filename i name ext;
             outPath = path_join outDir filename
         in if ext = ''png'' then composeImageWithText e mp outPath name ov fs
            else
              (let tmpPng = png_of_jpg outPath
               in case composeImageWithText e mp tmpPng name ov fs of
                    (Inl err, fs1) \<Rightarrow> (Inl err, fs1)
                  | (Inr u, fs1) \<Rightarrow>
                      (case to_jpeg e fs1 tmpPng of
                         None \<Rightarrow> (Inl ConvertError, fs1)
                       | Some jpgBuf \<Rightarrow>
                           if \<not> write_ok e outPath then (Inl WriteError, fs1)
                           else
                             (let fs2 = fs1(outPath \<mapsto> Image jpgBuf);
                                  fs3 = fs2(tmpPng := None)
                              in (Inr (), fs3))))))"

text \<open>
  The generation loop, run over the indices of the window; the first error ends the loop and
  leaves the files as they are at that point.
\<close>

fun generate_loop ::
  "env \<Rightarrow> string \<Rightarrow> string list \<Rightarrow> overlay \<Rightarrow> string \<Rightarrow> string \<Rightarrow> rat list \<Rightarrow> filesystem
     \<Rightarrow> (error + unit) \<times> filesystem" where
  "generate_loop e mp ns ov ext outDir [] fs = (Inr (), fs)"
| "generate_loop e mp ns ov ext outDir (idx # rest) fs =
     (case generate_step e mp ns ov ext outDir idx fs of
        (Inl err, fs1) \<Rightarrow> (Inl err, fs1)
      | (Inr u, fs1) \<Rightarrow> generate_loop e mp ns ov ext outDir rest fs1)"

text \<open>
  \<open>POST /api/generate\<close>. Where the output directory is missing, \<open>mkdirSync\<close> with
  \<open>recursive\<close> makes it and, if missing too, the directory of the session above it (the work
  directory exists from the start of the server).
\<close>

definition api_generate :: "env \<Rightarrow> request \<Rightarrow> world \<Rightarrow> response \<times> world" where
  "api_generate e req w =
     (case sessions w (sessionId req) of
        None \<Rightarrow> (Failure 400 ''Invalid session'', w)
      | Some s \<Rightarrow>
          if no_model s \<or> names s = [] then (Failure 400 ''Missing model or names'', w)
          else
            (let sessionDir = path_join (workDir e) (sessionId req);
                 outDir = path_join sessionDir ''all'';
                 fs0 = ensure_dirs (files w) sessionDir outDir;
                 ext = (if req_format req = JStr ''jpg'' \<or> req_format req = JStr ''jpeg'' then ''jpg''
                        else ''png'');
                 start = window_start (ToNumber e (req_offset req));
                 endEx = endExclusive (length (names s)) (ToNumber e (req_offset req))
                           (ToNumber e (req_limit req))
             in case generate_loop e (the (modelPath s)) (names s) (style req) ext outDir
                       (loop_indices start endEx) fs0 of
                  (Inl err, fs1) \<Rightarrow> (Failure 500 ''Generation failed.'', w\<lparr>files := fs1\<rparr>)
                | (Inr u, fs1) \<Rightarrow>
                    (let zipPath = path_join sessionDir ''invitations.zip''
                     in if \<not> archive_ok e outDir then
                          (Failure 500 ''Generation failed.'', w\<lparr>files := fs1\<rparr>)
                        else
                          (let fs2 = fs1(zipPath \<mapsto> Zip (dir_images fs1 outDir));
                               s' = s\<lparr>cleanup := cleanup s @ [sessionDir]\<rparr>
                           in (Generated (''/api/download/'' @ sessionId req) (endEx - start) start
                                 (length (names s)),
                               w\<lparr>files := fs2, sessions := (sessions w)(sessionId req \<mapsto> s')\<rparr>)))))"

text \<open>\<open>GET /api/download/:sid\<close>: the session is cleaned up once the transfer has ended, well or not.\<close>

definition api_download :: "env \<Rightarrow> string \<Rightarrow> world \<Rightarrow> response \<times> world" where
  "api_download e i w =
     (case sessions w i of
        None \<Rightarrow> (Failure 400 ''Invalid session'', w)
      | Some s \<Rightarrow>
          (let zipPath = path_join (path_join (workDir e) i) ''invitations.zip''
           in if \<not> existsSync (files w) zipPath then (Failure 404 ''ZIP not found'', w)
              else (Download zipPath (transfer_ok e zipPath), cleanupSession e i w)))"

section \<open>A sample installation\<close>

text \<open>
  The two conversions for the samples. The first is \<open>String(n)\<close> on the integers below
  \<open>10^21\<close> in magnitude, the only numbers that the samples print. The second is \<open>Number(s)\<close>
  on the blank strings and the strings of decimal digits; the samples convert no string.
\<close>

definition sample_NumberToString :: "rat \<Rightarrow> string" where
  "sample_NumberToString r = String_of_int \<lfloor>r\<rfloor>"

definition sample_StringToNumber :: "string \<Rightarrow> jsnumber" where
  "sample_StringToNumber s =
     (if trim s = [] then Finite 0
      else if list_all is_digit (trim s) then Finite (of_nat (digits_value (trim s)))
      else NaN)"

text \<open>
  An environment in which every library call succeeds, and a world with one session after an
  upload of a template and of a list of two names.
\<close>

definition sample_env :: env where
  "sample_env =
     \<lparr> StringToNumber = sample_StringToNumber,
       NumberToString = sample_NumberToString,
       workDir = ''/srv/work'',
       metadata = (\<lambda>p. Some (Some 800, Some 600)),
       composite_ok = (\<lambda>p l. True),
       jpeg_ok = (\<lambda>p. True),
       write_ok = (\<lambda>p. True),
       archive_ok = (\<lambda>p. True),
       rm_ok = (\<lambda>p. True),
       transfer_ok = (\<lambda>p. True) \<rparr>"

definition sample_session :: session where
  "sample_session =
     \<lparr> sid = ''s1'', createdAt = 0,
       modelPath = Some ''/srv/uploads/model.png'',
       listPath = Some ''/srv/uploads/list.csv'',
       names = [''Alice'', ''Bob''],
       cleanup = [''/srv/uploads/model.png'', ''/srv/uploads/list.csv''] \<rparr>"

definition sample_world :: world where
  "sample_world =
     \<lparr> sessions = [''s1'' \<mapsto> sample_session],
       files = [''/srv/uploads/model.png'' \<mapsto> Data ''PNG'',
                ''/srv/uploads/list.csv'' \<mapsto> Data ''Alice,Bob''] \<rparr>"

definition sample_style :: overlay where
  "sample_style =
     \<lparr> pos_x = JNum 100, pos_y = JNum 200, fontFamily = JUndefined, fontSize = JUndefined,
       color = JUndefined \<rparr>"

definition sample_request :: request where
  "sample_request =
     \<lparr> sessionId = ''s1'', style = sample_style, req_format = JStr ''jpg'',
       req_offset = JUndefined, req_limit = JUndefined \<rparr>"

text \<open>
  A preview request whose \<open>x\<close> is a string that closes the attribute and the text element and
  opens a second one.
\<close>

definition injected_x :: string where
  "injected_x =
     ''100'' @ [DQ] @ '' y='' @ [DQ] @ ''200'' @ [DQ] @ '' class='' @ [DQ] @ ''t'' @ [DQ] @
     ''>Bob</text><text x='' @ [DQ] @ ''-9999''"

definition injected_request :: request where
  "injected_request = sample_request\<lparr>style := sample_style\<lparr>pos_x := JStr injected_x\<rparr>\<rparr>"

text \<open>
  The SVG text that the code builds for that request in the sample world: the first text
  element shows Bob at the position 100, 200, and the element of the first name, Alice,
  follows at the abscissa -9999.
\<close>

definition injected_svg :: string where
  "injected_svg =
     ''<?xml version='' @ [DQ] @ ''1.0'' @ [DQ] @ '' encoding='' @ [DQ] @ ''UTF-8'' @ [DQ] @
       ''?>'' @ [LF] @
     ''<svg width='' @ [DQ] @ ''800'' @ [DQ] @ '' height='' @ [DQ] @ ''600'' @ [DQ] @
       '' viewBox='' @ [DQ] @ ''0 0 800 600'' @ [DQ] @ '' xmlns='' @ [DQ] @
       ''http://www.w3.org/2000/svg'' @ [DQ] @ ''>'' @ [LF] @
     ''  <style>'' @ [LF] @
     ''    .t { font-family: '' @ [SQ] @ ''Arial'' @ [SQ] @
       ''; font-size: 48px; fill: #000000; dominant-baseline: hanging; }'' @ [LF] @
     ''  </style>'' @ [LF] @
     ''  <text x='' @ [DQ] @ ''100'' @ [DQ] @ '' y='' @ [DQ] @ ''200'' @ [DQ] @ '' class='' @
       [DQ] @ ''t'' @ [DQ] @ ''>Bob</text><text x='' @ [DQ] @ ''-9999'' @ [DQ] @ '' y='' @
       [DQ] @ ''200'' @ [DQ] @ '' class='' @ [DQ] @ ''t'' @ [DQ] @ ''>Alice</text>'' @
       [LF] @
     ''</svg>''"

text \<open>A reader for which no file can be read and no document parsed.\<close>

definition unreadable :: reader where
  "unreadable =
     \<lparr> readFileSync = (\<lambda>p. None),
       xlsx_cells = (\<lambda>p. Inl ReadError),
       mammoth_text = (\<lambda>p. Inl ReadError),
       pdf_text = (\<lambda>b. None) \<rparr>"

text \<open>The sample environment with every removal failing.\<close>

definition locked_env :: env where
  "locked_env = sample_env\<lparr>rm_ok := (\<lambda>p. False)\<rparr>"

text \<open>The sample environment with every conversion to JPEG failing.\<close>

definition no_jpeg_env :: env where
  "no_jpeg_env = sample_env\<lparr>jpeg_ok := (\<lambda>p. False)\<rparr>"

text \<open>The sample world once the two artifacts and the archive of the session are on disk.\<close>

definition generated_session :: session where
  "generated_session =
     sample_session\<lparr>cleanup := cleanup sample_session @ [''/srv/work/s1'']\<rparr>"

definition generated_world :: world where
  "generated_world =
     \<lparr> sessions = [''s1'' \<mapsto> generated_session],
       files = [''/srv/uploads/model.png'' \<mapsto> Data ''PNG'',
                ''/srv/uploads/list.csv'' \<mapsto> Data ''Alice,Bob'',
                ''/srv/work/s1'' \<mapsto> Dir,
                ''/srv/work/s1/all'' \<mapsto> Dir,
                ''/srv/work/s1/all/001-Alice.png'' \<mapsto>
                   Image (Png ''/srv/uploads/model.png'' (buildSVGText sample_env ''Alice'' sample_style 800 600)),
                ''/srv/work/s1/all/002-Bob.png'' \<mapsto>
                   Image (Png ''/srv/uploads/model.png'' (buildSVGText sample_env ''Bob'' sample_style 800 600)),
                ''/srv/work/s1/invitations.zip'' \<mapsto>
                   Zip [''001-Alice.png'' \<mapsto>
                          Png ''/srv/uploads/model.png'' (buildSVGText sample_env ''Alice'' sample_style 800 600),
                        ''002-Bob.png'' \<mapsto>
                          Png ''/srv/uploads/model.png'' (buildSVGText sample_env ''Bob'' sample_style 800 600)]] \<rparr>"

section \<open>Properties of the name extraction\<close>

lemma trim_snoc_space:
  assumes c: "is_space c"
  shows "trim (xs @ [c]) = trim xs"
proof (cases "\<forall>x \<in> set xs. is_space x")
  case True
  with c have "\<forall>x \<in> set (xs @ [c]). is_space x" by simp
  then have a: "dropWhile is_space (xs @ [c]) = []" by (rule iffD2[OF dropWhile_eq_Nil_conv])
  have b: "dropWhile is_space xs = []" using True by (rule iffD2[OF dropWhile_eq_Nil_conv])
  show ?thesis unfolding trim_def a b by simp
next
  case False
  then obtain x where "x \<in> set xs" "\<not> is_space x" by blast
  then have a: "dropWhile is_space (xs @ [c]) = dropWhile is_space xs @ [c]"
    by (rule dropWhile_append1)
  show ?thesis unfolding trim_def a using c by simp
qed

lemma split_join:
  assumes "\<forall>c \<in> set t0. \<not> is_sep c" "\<forall>(s, u) \<in> set rest. is_sep s \<and> (\<forall>c \<in> set u. \<not> is_sep c)"
  shows "map trim (split_sep cur (join_tokens t0 rest)) = map trim ((cur @ t0) # map snd rest)"
  using assms
proof (induction rest arbitrary: cur t0)
  case Nil
  then show ?case
  proof (induction t0 arbitrary: cur)
    case Nil
    then show ?case by simp
  next
    case (Cons c t)
    have "\<not> is_sep c" using Cons.prems by simp
    then have nsep: "c \<noteq> LF" "c \<noteq> CHR '';''" "c \<noteq> CHR '',''" by (auto simp: is_sep_def)
    have "LF \<notin> set t" using Cons.prems(1) by (auto simp: is_sep_def)
    then have "take 1 t \<noteq> [LF]" by (cases t) auto
    then show ?case using nsep Cons by simp
  qed
next
  case (Cons p rest)
  obtain s u where p: "p = (s, u)" by (cases p)
  have s: "is_sep s" and u: "\<forall>c \<in> set u. \<not> is_sep c"
    and r: "\<forall>(s, u) \<in> set rest. is_sep s \<and> (\<forall>c \<in> set u. \<not> is_sep c)"
    using Cons.prems(2) p by auto
  have IH: "\<And>cur. map trim (split_sep cur (join_tokens u rest)) = map trim ((cur @ u) # map snd rest)"
    using Cons.IH[OF u r] .
  have sCR: "s \<noteq> CR" using s by (auto simp: is_sep_def)
  show ?case using Cons.prems(1)
  proof (induction t0 arbitrary: cur)
    case Nil
    show ?case using s sCR IH[of "[]"] by (simp add: p is_sep_def)
  next
    case (Cons c t)
    have "\<not> is_sep c" using Cons.prems by simp
    then have nsep: "c \<noteq> LF" "c \<noteq> CHR '';''" "c \<noteq> CHR '',''" by (auto simp: is_sep_def)
    have t: "\<forall>c\<in>set t. \<not> is_sep c" using Cons.prems by simp
    show ?case
    proof (cases "c = CR \<and> take 1 (join_tokens t (p # rest)) = [LF]")
      case True
      have "LF \<notin> set t" using t by (auto simp: is_sep_def)
      with True have t_nil: "t = []" by (cases t) (auto simp: p)
      with True have sLF: "s = LF" by (simp add: p)
      have "is_space CR" by (simp add: is_space_def)
      then have "trim (cur @ [CR]) = trim cur" by (rule trim_snoc_space)
      then show ?thesis using True t_nil sLF IH[of "[]"] by (simp add: p)
    next
      case False
      then show ?thesis using nsep Cons.IH[OF t, of "cur @ [c]"] by (auto simp: p)
    qed
  qed
qed

text \<open>Every text is such a sequence of tokens and separators.\<close>

lemma every_text_is_joined:
  "\<exists>t0 rest. str = join_tokens t0 rest \<and> (\<forall>c \<in> set t0. \<not> is_sep c) \<and>
     (\<forall>(s, u) \<in> set rest. is_sep s \<and> (\<forall>c \<in> set u. \<not> is_sep c))"
proof (induction str)
  case Nil
  have "[] = join_tokens [] []" by simp
  then show ?case by fastforce
next
  case (Cons c cs)
  then obtain t0 rest where cs: "cs = join_tokens t0 rest" and t0: "\<forall>c \<in> set t0. \<not> is_sep c"
    and rest: "\<forall>(s, u) \<in> set rest. is_sep s \<and> (\<forall>c \<in> set u. \<not> is_sep c)" by blast
  show ?case
  proof (cases "is_sep c")
    case True
    have "c # cs = join_tokens [] ((c, t0) # rest)" by (simp add: cs)
    moreover have "\<forall>(s, u) \<in> set ((c, t0) # rest). is_sep s \<and> (\<forall>c \<in> set u. \<not> is_sep c)"
      using True t0 rest by simp
    ultimately show ?thesis by fastforce
  next
    case False
    have "c # cs = join_tokens (c # t0) rest" by (cases rest) (auto simp: cs)
    moreover have "\<forall>d \<in> set (c # t0). \<not> is_sep d" using False t0 by simp
    ultimately show ?thesis using rest by blast
  qed
qed

text \<open>
  C1 (as amended). A delimited text made of tokens that hold no newline, semicolon or comma,
  joined by such separators (a CR before a newline counts with the newline), yields exactly
  its trimmed tokens in their original order, without the empty ones and without the tokens
  that read \<open>liste\<close> once lower-cased and stripped of all whitespace.
\<close>

theorem parseNamesFromText_tokens:
  assumes "\<forall>c \<in> set t0. \<not> is_sep c"
    and "\<forall>(s, u) \<in> set rest. is_sep s \<and> (\<forall>c \<in> set u. \<not> is_sep c)"
  shows "parseNamesFromText (join_tokens t0 rest) =
           filter (\<lambda>t. t \<noteq> [] \<and> \<not> is_header t) (map trim (t0 # map snd rest))"
proof -
  have "map trim (split_sep [] (join_tokens t0 rest)) = map trim (([] @ t0) # map snd rest)"
    using assms by (rule split_join)
  then show ?thesis
    by (simp add: parseNamesFromText_def conj_commute)
qed

text \<open>The scenario of the specification: the list file \<open>Alice LF Bob LF , SP SP , LF Liste\<close>.\<close>

theorem parseNamesFromText_tokens_witness:
  "parseNamesFromText (''Alice'' @ [LF] @ ''Bob'' @ [LF] @ '',  ,'' @ [LF] @ ''Liste'') =
     [''Alice'', ''Bob'']"
proof -
  have h1: "\<forall>c \<in> set ''Alice''. \<not> is_sep c"
    by (simp add: is_sep_def)
  have h2: "\<forall>(s, u) \<in> set [(LF, ''Bob''), (LF, []), (CHR '','', ''  ''), (CHR '','', []), (LF, ''Liste'')].
      is_sep s \<and> (\<forall>c \<in> set u. \<not> is_sep c)"
    by (simp add: is_sep_def)
  have "filter (\<lambda>t. t \<noteq> [] \<and> \<not> is_header t)
          (map trim [''Alice'', ''Bob'', [], ''  '', [], ''Liste'']) = [''Alice'', ''Bob'']"
    by code_simp
  then show ?thesis
    using parseNamesFromText_tokens [OF h1 h2] by simp
qed

text \<open>
  C1 as stated fails: the token \<open>Li ste\<close> is trimmed, not empty and no match of \<open>liste\<close> up
  to letter case, so the stated rule keeps it; the code removes the inner whitespace before
  comparing and drops it.
\<close>

theorem parseNamesFromText_spec_counterexample:
  "parseNames_spec ''Li ste'' = [''Li ste''] \<and> parseNamesFromText ''Li ste'' = []"
  by code_simp

section \<open>Properties of the batch window\<close>

lemma loop_indices_length: "length (loop_indices i e) = nat \<lceil>e - i\<rceil>"
proof (induction i e rule: loop_indices.induct)
  case (1 idx e)
  show ?case
  proof (cases "idx < e")
    case True
    then have "length (loop_indices idx e) = Suc (length (loop_indices (idx + 1) e))"
      by (subst loop_indices.simps) simp
    also have "\<dots> = Suc (nat \<lceil>e - (idx + 1)\<rceil>)" using 1 True by simp
    also have "\<dots> = nat \<lceil>e - idx\<rceil>"
    proof -
      define c where "c = \<lceil>e - idx\<rceil>"
      have "\<lceil>e - (idx + 1)\<rceil> = c - 1" by (simp add: c_def diff_diff_eq [symmetric])
      moreover have "0 < c" using True by (simp add: c_def)
      ultimately show ?thesis unfolding c_def [symmetric] by simp
    qed
    finally show ?thesis .
  next
    case False
    then have "loop_indices idx e = []" by (subst loop_indices.simps) simp
    moreover have "\<lceil>e - idx\<rceil> \<le> 0" using False by (simp add: ceiling_le_zero)
    ultimately show ?thesis by simp
  qed
qed

lemma loop_indices_nth: "k < length (loop_indices i e) \<Longrightarrow> loop_indices i e ! k = i + of_nat k"
proof (induction i e arbitrary: k rule: loop_indices.induct)
  case (1 idx e)
  show ?case
  proof (cases "idx < e")
    case True
    then have eq: "loop_indices idx e = idx # loop_indices (idx + 1) e"
      by (subst loop_indices.simps) simp
    show ?thesis
    proof (cases k)
      case 0
      then show ?thesis by (simp add: eq)
    next
      case (Suc m)
      with "1.prems" eq have "m < length (loop_indices (idx + 1) e)" by simp
      then have "loop_indices (idx + 1) e ! m = idx + 1 + of_nat m" using "1.IH"[OF True] by simp
      then show ?thesis by (simp add: eq Suc)
    qed
  next
    case False
    then have "loop_indices idx e = []" by (subst loop_indices.simps) simp
    with "1.prems" show ?thesis by simp
  qed
qed

lemma window_start_nonneg: "0 \<le> window_start off"
  by (simp add: window_start_def)

lemma ceiling_of_integer: "x \<in> \<int> \<Longrightarrow> of_int \<lceil>x\<rceil> = (x::rat)"
  by (auto elim: Ints_cases)

lemma turns_le:
  fixes x y :: rat
  assumes "y \<in> \<int>" and "x \<le> y"
  shows "of_nat (nat \<lceil>x\<rceil>) \<le> max 0 y"
proof -
  define c where "c = \<lceil>x\<rceil>"
  have "c \<le> \<lceil>y\<rceil>" unfolding c_def using assms(2) by (rule ceiling_mono)
  then have "(of_int c :: rat) \<le> of_int \<lceil>y\<rceil>" by simp
  then have cy: "(of_int c :: rat) \<le> y" using ceiling_of_integer [OF assms(1)] by simp
  have "of_nat (nat c) \<le> max 0 y"
  proof (cases "0 \<le> c")
    case True
    then have "(of_nat (nat c) :: rat) = of_int c" by simp
    with cy show ?thesis by simp
  next
    case False
    then show ?thesis by simp
  qed
  then show ?thesis by (simp only: c_def)
qed

text \<open>
  C2 (as amended). Below, \<open>off\<close> and \<open>lm\<close> are \<open>Number(offset)\<close> and \<open>Number(limit)\<close>. The start
  offset is the offset of the request, or 0 when that is absent, not a finite number or
  negative. Where the limit is a positive integer and the start offset
  an integer, the window holds at most min(limit, 50, names left from the start offset)
  indices. Where the start offset is an integer, the window holds at most the names left from
  it, whatever the limit. The window is empty when the start offset is at or past the end of
  the list. Without a limit, or with a limit that is 0 or not a finite number, the window
  holds all names from an integer start offset on, whatever the cap.
\<close>

theorem window_length_bounds:
  "(\<forall>l. lm = Finite (of_int l) \<and> 0 < l \<and> window_start off \<in> \<int> \<longrightarrow>
      of_nat (length (window n off lm)) \<le>
        min (of_int l) (min maxBatch (max 0 (of_nat n - window_start off)))) \<and>
   (window_start off \<in> \<int> \<longrightarrow>
      of_nat (length (window n off lm)) \<le> max 0 (of_nat n - window_start off)) \<and>
   (of_nat n \<le> window_start off \<longrightarrow> length (window n off lm) = 0) \<and>
   ((\<forall>r. lm = Finite r \<longrightarrow> r = 0) \<and> window_start off \<in> \<int> \<longrightarrow>
      of_nat (length (window n off lm)) = max 0 (of_nat n - window_start off))"
proof (intro conjI allI impI)
  fix l :: int
  assume a: "lm = Finite (of_int l) \<and> 0 < l \<and> window_start off \<in> \<int>"
  then have lm: "lm = Finite (of_int l)" and l: "0 < l" and s: "window_start off \<in> \<int>" by simp_all
  define b :: rat where "b = max 1 (min maxBatch (of_int l))"
  have b1: "b \<le> of_int l" using l by (simp add: b_def)
  have b2: "b \<le> maxBatch" by (simp add: b_def maxBatch_def)
  have "1 \<le> b" by (simp add: b_def)
  then have b0: "b \<noteq> 0" by simp
  have e: "endExclusive n off lm = min (of_nat n) (window_start off + b)"
    using l b0 by (simp add: endExclusive_def batchSize_def lm b_def)
  have len: "length (window n off lm) = nat \<lceil>min (of_nat n) (window_start off + b) - window_start off\<rceil>"
    by (simp add: window_def loop_indices_length e)
  have m: "min (of_int l) (min maxBatch (max 0 (of_nat n - window_start off))) \<in> \<int>"
    using s by (simp add: min_def max_def maxBatch_def)
  have "min (of_nat n) (window_start off + b) - window_start off
      \<le> min (of_int l) (min maxBatch (max 0 (of_nat n - window_start off)))"
    using b1 b2 l by (simp add: min_def max_def maxBatch_def b_def split: if_splits)
  from turns_le [OF m this]
  show "of_nat (length (window n off lm)) \<le>
        min (of_int l) (min maxBatch (max 0 (of_nat n - window_start off)))"
    using l by (simp add: len max_def min_def maxBatch_def split: if_splits)
next
  assume s: "window_start off \<in> \<int>"
  have i: "of_nat n - window_start off \<in> \<int>" using s by simp
  have "endExclusive n off lm \<le> of_nat n"
    by (simp add: endExclusive_def split: option.splits)
  then have "endExclusive n off lm - window_start off \<le> of_nat n - window_start off" by simp
  from turns_le [OF i this]
  show "of_nat (length (window n off lm)) \<le> max 0 (of_nat n - window_start off)"
    by (simp add: window_def loop_indices_length)
next
  assume a: "of_nat n \<le> window_start off"
  have "endExclusive n off lm \<le> of_nat n"
    by (simp add: endExclusive_def split: option.splits)
  with a have "endExclusive n off lm - window_start off \<le> 0" by simp
  then have "\<lceil>endExclusive n off lm - window_start off\<rceil> \<le> 0" by (simp add: ceiling_le_zero)
  then show "length (window n off lm) = 0"
    by (simp add: window_def loop_indices_length)
next
  assume a: "(\<forall>r. lm = Finite r \<longrightarrow> r = 0) \<and> window_start off \<in> \<int>"
  then have "batchSize lm = None" by (cases lm) (auto simp: batchSize_def)
  then have e: "endExclusive n off lm = of_nat n" by (simp add: endExclusive_def)
  have i: "of_nat n - window_start off \<in> \<int>" using a by simp
  show "of_nat (length (window n off lm)) = max 0 (of_nat n - window_start off)"
    using ceiling_of_integer [OF i]
    by (cases "0 \<le> \<lceil>of_nat n - window_start off\<rceil>")
      (auto simp: window_def loop_indices_length e max_def)
qed

text \<open>The two batch scenarios of the specification: 120 names, limit 10, offsets 50 and 115.\<close>

theorem window_length_bounds_witness:
  "length (window 120 (Finite 50) (Finite 10)) \<le> 10 \<and> length (window 120 (Finite 115) (Finite 10)) \<le> 5"
proof -
  have a: "of_nat (length (window 120 (Finite 50) (Finite 10))) \<le>
      min (of_int 10) (min maxBatch (max 0 (of_nat 120 - window_start (Finite 50))))"
    using window_length_bounds [where lm = "Finite 10" and off = "Finite 50" and n = 120]
    by (simp add: window_start_def)
  have b: "of_nat (length (window 120 (Finite 115) (Finite 10))) \<le>
      min (of_int 10) (min maxBatch (max 0 (of_nat 120 - window_start (Finite 115))))"
    using window_length_bounds [where lm = "Finite 10" and off = "Finite 115" and n = 120]
    by (simp add: window_start_def)
  from a have "(of_nat (length (window 120 (Finite 50) (Finite 10))) :: rat) \<le> of_nat 10"
    by (simp add: maxBatch_def window_start_def)
  moreover from b have "(of_nat (length (window 120 (Finite 115) (Finite 10))) :: rat) \<le> of_nat 5"
    by (simp add: maxBatch_def window_start_def)
  ultimately show ?thesis by (simp only: of_nat_le_iff)
qed

text \<open>
  C2 as stated fails: a request without a limit over 120 names has a window of 120 indices,
  above the cap of 50; and a request with the limit 2.5 has a window of 3 indices, above its
  limit.
\<close>

theorem window_cap_counterexample:
  "length (window 120 NaN NaN) = 120 \<and> \<not> of_nat (length (window 120 NaN NaN)) \<le> maxBatch \<and>
   length (window 120 (Finite 0) (Finite (5 / 2))) = 3"
proof -
  have "length (window 120 NaN NaN) = 120"
    by (simp add: window_def loop_indices_length endExclusive_def batchSize_def window_start_def)
  moreover have "length (window 120 (Finite 0) (Finite (5 / 2))) = 3"
    by code_simp
  ultimately show ?thesis by (simp add: maxBatch_def)
qed

section \<open>Properties of the artifact file names\<close>

lemma of_char_digit: "d < 10 \<Longrightarrow> (of_char (digit_char d) :: nat) = 48 + d"
  by (simp add: digit_char_def)

lemma is_digit_digit_char: "d < 10 \<Longrightarrow> is_digit (digit_char d)"
  by (simp add: is_digit_def of_char_digit)

lemma String_of_nat_digits: "\<forall>c \<in> set (String_of_nat n). is_digit c"
proof (induction n rule: String_of_nat.induct)
  case (1 n)
  show ?case
  proof (cases "n < 10")
    case True
    then show ?thesis by (subst String_of_nat.simps) (simp add: is_digit_digit_char)
  next
    case False
    then have "String_of_nat n = String_of_nat (n div 10) @ [digit_char (n mod 10)]"
      by (subst String_of_nat.simps) simp
    with False 1 show ?thesis by (simp add: is_digit_digit_char)
  qed
qed

lemma digits_value_snoc: "digits_value (s @ [c]) = 10 * digits_value s + (of_char c - 48)"
  by (simp add: digits_value_def)

lemma digits_value_String_of_nat: "digits_value (String_of_nat n) = n"
proof (induction n rule: String_of_nat.induct)
  case (1 n)
  show ?case
  proof (cases "n < 10")
    case True
    then show ?thesis
      by (subst String_of_nat.simps) (simp add: digits_value_def of_char_digit)
  next
    case False
    then have "String_of_nat n = String_of_nat (n div 10) @ [digit_char (n mod 10)]"
      by (subst String_of_nat.simps) simp
    with False 1 show ?thesis by (simp add: digits_value_snoc of_char_digit)
  qed
qed

lemma foldl_zeros: "foldl (\<lambda>a c. 10 * a + (of_char c - 48)) (0::nat) (replicate k (CHR ''0'') @ s)
    = foldl (\<lambda>a c. 10 * a + (of_char c - 48)) 0 s"
  by (induction k) simp_all

lemma digits_value_padStart: "digits_value (padStart k (CHR ''0'') s) = digits_value s"
  by (simp add: digits_value_def padStart_def foldl_zeros del: foldl_append)

lemma padStart_digits: "\<forall>c \<in> set s. is_digit c \<Longrightarrow> \<forall>c \<in> set (padStart k (CHR ''0'') s). is_digit c"
  by (auto simp: padStart_def is_digit_def)

lemma padStart_length: "k \<le> length (padStart k c s)"
  by (simp add: padStart_def)

lemma index_prefix_props:
  assumes "0 \<le> idx"
  shows "\<forall>c \<in> set (index_prefix idx). is_digit c" "int (digits_value (index_prefix idx)) = idx + 1"
    "3 \<le> length (index_prefix idx)"
proof -
  have eq: "index_prefix idx = padStart 3 (CHR ''0'') (String_of_nat (nat (idx + 1)))"
    using assms by (simp add: index_prefix_def String_of_int_def)
  show "\<forall>c \<in> set (index_prefix idx). is_digit c"
    unfolding eq by (rule padStart_digits) (rule String_of_nat_digits)
  show "int (digits_value (index_prefix idx)) = idx + 1"
    unfolding eq using assms by (simp add: digits_value_padStart digits_value_String_of_nat)
  show "3 \<le> length (index_prefix idx)"
    unfolding eq by (rule padStart_length)
qed

lemma takeWhile_digits: "\<forall>c \<in> set p. is_digit c \<Longrightarrow> takeWhile is_digit (p @ CHR ''-'' # r) = p"
  by (induction p) (simp_all add: is_digit_def)

lemma artifact_filename_prefix:
  "0 \<le> idx \<Longrightarrow> takeWhile is_digit (artifact_filename idx name ext) = index_prefix idx"
  using index_prefix_props(1)[of idx] takeWhile_digits[of "index_prefix idx"]
  by (simp add: artifact_filename_def)

lemma artifact_filename_inj:
  assumes "0 \<le> i" "0 \<le> j" "artifact_filename i a x = artifact_filename j b y"
  shows "i = j"
proof -
  have "index_prefix i = index_prefix j"
    using assms artifact_filename_prefix[of i a x] artifact_filename_prefix[of j b y] by simp
  then have "int (digits_value (index_prefix i)) = int (digits_value (index_prefix j))" by simp
  then show ?thesis using assms(1,2) by (simp add: index_prefix_props(2))
qed

lemma sanitize_squeeze: "sanitize name = sanitize_spec (squeeze_runs name)"
proof (induction name rule: squeeze_runs.induct)
  case (1 c d cs)
  show ?case
  proof (cases "\<not> is_slug_char c \<and> \<not> is_slug_char d")
    case True
    then have "sanitize (c # d # cs) = sanitize (c # cs)"
      by (simp add: sanitize.simps)
    with True 1 show ?thesis by simp
  next
    case False
    then have "sanitize (c # d # cs) = (if is_slug_char c then c else CHR ''_'') # sanitize (d # cs)"
      by (auto simp: sanitize.simps)
    with False 1 show ?thesis by (auto simp: sanitize_spec_def)
  qed
qed (simp_all add: sanitize.simps sanitize_spec_def)


lemma loop_indices_ge: "i \<in> set (loop_indices s e) \<Longrightarrow> s \<le> i"
proof (induction s e rule: loop_indices.induct)
  case (1 idx e)
  show ?case
  proof (cases "idx < e")
    case True
    then have eq: "loop_indices idx e = idx # loop_indices (idx + 1) e"
      by (subst loop_indices.simps) simp
    with "1.prems" "1.IH"[OF True] show ?thesis by auto
  next
    case False
    then have "loop_indices idx e = []" by (subst loop_indices.simps) simp
    with "1.prems" show ?thesis by simp
  qed
qed

lemma window_nonneg: "i \<in> set (window n off lm) \<Longrightarrow> 0 \<le> i"
  using loop_indices_ge[of i "window_start off" "endExclusive n off lm"] window_start_nonneg[of off]
  by (simp add: window_def)

text \<open>
  C7. Within one generation window, the file names derived for two distinct indices differ,
  whatever the two names are (equal, or equal after the replacement): the text before the
  first hyphen is the decimal numeral of the index. A file name is derived for the integer
  indices only.
\<close>

theorem artifact_filename_distinct:
  assumes "of_int i \<in> set (window n off lm)" and "of_int j \<in> set (window n off lm)" and "i \<noteq> j"
  shows "artifact_filename i a ext \<noteq> artifact_filename j b ext"
proof
  assume "artifact_filename i a ext = artifact_filename j b ext"
  moreover have "0 \<le> i" "0 \<le> j" using assms(1,2) by (auto dest: window_nonneg)
  ultimately have "i = j" by (simp add: artifact_filename_inj)
  with assms(3) show False by simp
qed

text \<open>Two names that collide after the replacement, at the first two indices of a window.\<close>

theorem artifact_filename_distinct_witness:
  "artifact_filename 0 ''Ann Lee'' ''png'' \<noteq> artifact_filename 1 ''Ann_Lee'' ''png''"
proof -
  have w: "window 3 NaN NaN = [0, 1, 2]" by code_simp
  have i: "of_int 0 \<in> set (window 3 NaN NaN)" and j: "of_int 1 \<in> set (window 3 NaN NaN)"
    by (simp_all add: w)
  have ne: "(0::int) \<noteq> 1" by simp
  show ?thesis by (rule artifact_filename_distinct [OF i j ne])
qed

text \<open>
  C3 (as amended). For an integer start offset, the index at loop position \<open>k\<close> of the window
  is start offset + \<open>k\<close>, and the file name derived for it is: the decimal numeral of the
  absolute 1-based index (start offset + \<open>k\<close> + 1), padded with zeros on the left to at least
  3 digits; a hyphen; the name with each maximal run of characters outside \<open>[A-Za-z0-9_-]\<close>
  replaced by a single underscore (the replacement of every character by an underscore,
  applied to the name with each run cut down to one character); a dot; the extension.
\<close>

theorem artifact_filename_index:
  assumes "k < length (window n off lm)" and "window_start off = of_int s"
  shows "window n off lm ! k = of_int (s + int k) \<and>
         artifact_filename \<lfloor>window n off lm ! k\<rfloor> name ext =
           index_prefix (s + int k) @ ''-'' @ sanitize_spec (squeeze_runs name) @ ''.'' @ ext \<and>
         3 \<le> length (index_prefix (s + int k)) \<and>
         (\<forall>c \<in> set (index_prefix (s + int k)). is_digit c) \<and>
         int (digits_value (index_prefix (s + int k))) = s + int k + 1"
proof -
  have nth: "window n off lm ! k = of_int (s + int k)"
    using assms by (simp add: window_def loop_indices_nth)
  have "(0::rat) \<le> of_int s" using window_start_nonneg[of off] assms(2) by simp
  then have "0 \<le> s + int k" by simp
  then show ?thesis
    by (simp add: nth artifact_filename_def sanitize_squeeze index_prefix_props)
qed

text \<open>A batch of 10 at offset 50 over 120 names: its first file carries the index 051.\<close>

theorem artifact_filename_index_witness:
  "artifact_filename \<lfloor>window 120 (Finite 50) (Finite 10) ! 0\<rfloor> ''Jean  Pierre'' ''png'' = ''051-Jean_Pierre.png''"
proof -
  have k: "0 < length (window 120 (Finite 50) (Finite 10))" by code_simp
  have s: "window_start (Finite 50) = of_int 50" by (simp add: window_start_def)
  have v: "index_prefix (50 + int 0) @ ''-'' @ sanitize_spec (squeeze_runs ''Jean  Pierre'') @ ''.'' @ ''png''
     = ''051-Jean_Pierre.png''" by code_simp
  have "artifact_filename \<lfloor>window 120 (Finite 50) (Finite 10) ! 0\<rfloor> ''Jean  Pierre'' ''png'' =
      index_prefix (50 + int 0) @ ''-'' @ sanitize_spec (squeeze_runs ''Jean  Pierre'') @ ''.'' @ ''png''"
    using artifact_filename_index [OF k s, of "''Jean  Pierre''" "''png''"] by (rule conjunct1 [OF conjunct2])
  then show ?thesis by (simp only: v)
qed

text \<open>
  C3 as stated fails: in the name \<open>A  B\<close> the two spaces are outside the set, and replacing
  every such character by an underscore gives two underscores; the code gives one.
\<close>

theorem artifact_filename_spec_counterexample:
  "artifact_filename 0 ''A  B'' ''png'' = ''001-A_B.png'' \<and>
   artifact_filename_spec 0 ''A  B'' ''png'' = ''001-A__B.png''"
  by code_simp

section \<open>Properties of the text layer and of the preview\<close>

text \<open>
  C9 (as amended). In every render that succeeds, the image written holds the SVG text of a
  layer whose font size is 48 when \<open>Number(fontSize)\<close> is NaN or 0 (so when the size is absent,
  not a number or 0), and \<open>Number(fontSize)\<close> otherwise, a negative number included; its fill
  is \<open>#000000\<close> when the colour is falsy (so when it is absent or empty), and the supplied
  colour otherwise. So the font size of the layer is positive exactly when the supplied size
  is not negative. These two values stand in the style rule of the SVG text.
\<close>

theorem text_layer_defaults:
  assumes "composeImageWithText e mp out t ov fs = (Inr u, fs')"
  shows "\<exists>l. fs' out = Some (Image (Png mp (svg_markup e l))) \<and>
           fsPx l = (if ToNumber e (fontSize ov) = NaN \<or> ToNumber e (fontSize ov) = Finite 0
                     then Finite 48 else ToNumber e (fontSize ov)) \<and>
           (fontSize ov = JUndefined \<longrightarrow> fsPx l = Finite 48) \<and>
           (\<forall>r. fontSize ov = JNum r \<longrightarrow> fsPx l = (if r = 0 then Finite 48 else Finite r)) \<and>
           fill l = (if truthy (color ov) then color ov else JStr ''#000000'') \<and>
           (color ov = JUndefined \<or> color ov = JStr [] \<longrightarrow> fill l = JStr ''#000000'') \<and>
           (\<forall>c. color ov = JStr c \<and> c \<noteq> [] \<longrightarrow> fill l = JStr c) \<and>
           (is_positive (fsPx l) \<longleftrightarrow> \<not> is_negative (ToNumber e (fontSize ov))) \<and>
           (\<exists>pre post. svg_markup e l =
              pre @ ''font-size: '' @ String_of_number e (fsPx l) @ ''px; fill: '' @
              ToString e (fill l) @ post)"
proof -
  from assms obtain w h where
    fs': "fs' = fs(out \<mapsto> Image (Png mp (svg_markup e (layer_of e t ov w h))))"
    by (auto simp: composeImageWithText_def buildSVGText_def Let_def
        split: option.splits if_splits prod.splits)
  define l where "l = layer_of e t ov w h"
  have a: "fs' out = Some (Image (Png mp (svg_markup e l)))" by (simp add: fs' l_def)
  have b: "fsPx l = (if ToNumber e (fontSize ov) = NaN \<or> ToNumber e (fontSize ov) = Finite 0
                     then Finite 48 else ToNumber e (fontSize ov))"
    by (cases "ToNumber e (fontSize ov)") (simp_all add: l_def layer_of_def number_or_def)
  have c: "fill l = (if truthy (color ov) then color ov else JStr ''#000000'')"
    by (simp add: l_def layer_of_def or_json_def)
  have d: "is_positive (fsPx l) \<longleftrightarrow> \<not> is_negative (ToNumber e (fontSize ov))"
    by (cases "ToNumber e (fontSize ov)")
      (auto simp: b is_positive_def is_negative_def)
  have m: "svg_markup e l =
      (''<?xml version='' @ [DQ] @ ''1.0'' @ [DQ] @ '' encoding='' @ [DQ] @ ''UTF-8'' @ [DQ] @ ''?>'' @ [LF] @
       ''<svg width='' @ [DQ] @ NumberToString e (of_nat (width l)) @ [DQ] @
       '' height='' @ [DQ] @ NumberToString e (of_nat (height l)) @ [DQ] @
       '' viewBox='' @ [DQ] @ ''0 0 '' @ NumberToString e (of_nat (width l)) @ '' '' @
         NumberToString e (of_nat (height l)) @ [DQ] @
       '' xmlns='' @ [DQ] @ ''http://www.w3.org/2000/svg'' @ [DQ] @ ''>'' @ [LF] @
       ''  <style>'' @ [LF] @
       ''    .t { font-family: '' @ [SQ] @ ToString e (ff l) @ [SQ] @ ''; '') @
      ''font-size: '' @ String_of_number e (fsPx l) @ ''px; fill: '' @ ToString e (fill l) @
      (''; dominant-baseline: hanging; }'' @ [LF] @
       ''  </style>'' @ [LF] @
       ''  <text x='' @ [DQ] @ ToString e (text_x l) @ [DQ] @ '' y='' @ [DQ] @ ToString e (text_y l) @ [DQ] @
       '' class='' @ [DQ] @ ''t'' @ [DQ] @ ''>'' @ safeText l @ ''</text>'' @ [LF] @
       ''</svg>'')"
    by (simp add: svg_markup_def)
  have e: "\<exists>pre post. svg_markup e l =
              pre @ ''font-size: '' @ String_of_number e (fsPx l) @ ''px; fill: '' @
              ToString e (fill l) @ post"
    using m by blast
  have b1: "fontSize ov = JUndefined \<longrightarrow> fsPx l = Finite 48"
    by (simp add: b ToNumber_def)
  have b2: "\<forall>r. fontSize ov = JNum r \<longrightarrow> fsPx l = (if r = 0 then Finite 48 else Finite r)"
    by (simp add: b ToNumber_def)
  have c1: "color ov = JUndefined \<or> color ov = JStr [] \<longrightarrow> fill l = JStr ''#000000''"
    by (auto simp: c truthy_def)
  have c2: "\<forall>c. color ov = JStr c \<and> c \<noteq> [] \<longrightarrow> fill l = JStr c"
    by (auto simp: c truthy_def)
  from a b b1 b2 c c1 c2 d e show ?thesis by blast
qed

text \<open>A render of the sample style, which names neither size nor colour.\<close>

theorem text_layer_defaults_witness:
  "\<exists>l. snd (composeImageWithText sample_env ''/srv/uploads/model.png'' ''/srv/work/s1/test.png''
              ''Alice'' sample_style Map.empty) ''/srv/work/s1/test.png''
          = Some (Image (Png ''/srv/uploads/model.png'' (svg_markup sample_env l))) \<and>
        fsPx l = Finite 48 \<and> fill l = JStr ''#000000''"
proof -
  obtain fs' where c: "composeImageWithText sample_env ''/srv/uploads/model.png'' ''/srv/work/s1/test.png''
              ''Alice'' sample_style Map.empty = (Inr (), fs')"
    by (simp add: composeImageWithText_def sample_env_def)
  from text_layer_defaults [OF c] obtain l where
    "fs' ''/srv/work/s1/test.png'' = Some (Image (Png ''/srv/uploads/model.png'' (svg_markup sample_env l)))"
    "fsPx l = Finite 48" "fill l = JStr ''#000000''"
    by (auto simp: sample_style_def)
  then show ?thesis unfolding c by auto
qed

text \<open>
  C9 as stated fails: a supplied font size of -5 is not positive, yet no default replaces it
  and the text layer carries -5.
\<close>

theorem negative_font_size_counterexample:
  "fsPx (layer_of sample_env ''Alice''
      \<lparr>pos_x = JNum 100, pos_y = JNum 200, fontFamily = JUndefined, fontSize = JNum (- 5),
        color = JUndefined\<rparr>
      800 600) = Finite (- 5)"
  by (simp add: layer_of_def number_or_def ToNumber_def)

text \<open>
  The preview is built from the first name of the session and the style of the request, and
  its SVG text ends with the text element of that name, escaped.
\<close>

lemma api_test_text_is_first_name:
  assumes "api_test e req w = (Preview img, w')"
  shows "\<exists>s mp wd ht. sessions w (sessionId req) = Some s \<and> names s \<noteq> [] \<and>
           modelPath s = Some mp \<and>
           img = Png mp (buildSVGText e (hd (names s)) (style req) wd ht)"
proof -
  from assms obtain s where s: "sessions w (sessionId req) = Some s"
    by (auto simp: api_test_def split: option.splits)
  from assms s have ok: "\<not> no_model s" "names s \<noteq> []"
    by (auto simp: api_test_def split: if_splits)
  then obtain mp where mp: "modelPath s = Some mp"
    by (auto simp: no_model_def split: option.splits)
  have hd: "names s ! 0 = hd (names s)" using ok(2) by (simp add: hd_conv_nth)
  from assms s ok mp hd show ?thesis
    by (auto simp: api_test_def composeImageWithText_def Let_def
        split: option.splits if_splits prod.splits sum.splits node.splits)
qed

lemma buildSVGText_text_element:
  "\<exists>pre. buildSVGText e t ov w h =
     pre @ '' class='' @ [DQ] @ ''t'' @ [DQ] @ ''>'' @ escape_markup t @ ''</text>'' @ [LF] @ ''</svg>''"
proof -
  have "buildSVGText e t ov w h =
     (''<?xml version='' @ [DQ] @ ''1.0'' @ [DQ] @ '' encoding='' @ [DQ] @ ''UTF-8'' @ [DQ] @ ''?>'' @ [LF] @
     ''<svg width='' @ [DQ] @ NumberToString e (of_nat w) @ [DQ] @
     '' height='' @ [DQ] @ NumberToString e (of_nat h) @ [DQ] @
     '' viewBox='' @ [DQ] @ ''0 0 '' @ NumberToString e (of_nat w) @ '' '' @
       NumberToString e (of_nat h) @ [DQ] @
     '' xmlns='' @ [DQ] @ ''http://www.w3.org/2000/svg'' @ [DQ] @ ''>'' @ [LF] @
     ''  <style>'' @ [LF] @
     ''    .t { font-family: '' @ [SQ] @ ToString e (ff (layer_of e t ov w h)) @ [SQ] @
     ''; font-size: '' @ String_of_number e (fsPx (layer_of e t ov w h)) @ ''px; fill: '' @
     ToString e (fill (layer_of e t ov w h)) @
     ''; dominant-baseline: hanging; }'' @ [LF] @
     ''  </style>'' @ [LF] @
     ''  <text x='' @ [DQ] @ ToString e (pos_x ov) @ [DQ] @ '' y='' @ [DQ] @ ToString e (pos_y ov) @ [DQ]) @
     '' class='' @ [DQ] @ ''t'' @ [DQ] @ ''>'' @ escape_markup t @ ''</text>'' @ [LF] @ ''</svg>''"
    by (simp add: buildSVGText_def svg_markup_def layer_of_def)
  then show ?thesis by blast
qed

text \<open>
  C10, at an input where the code breaks it. The session lists Alice, then Bob. A preview
  request whose \<open>x\<close> is a string with markup in it gets an SVG text with a text element that
  shows Bob where the first name should stand, and the element of Alice pushed off the
  canvas: \<open>x\<close>, \<open>y\<close>, the font family and the colour enter the SVG text unescaped.
\<close>

theorem api_test_markup_injection:
  "sessions sample_world ''s1'' = Some sample_session \<and>
   names sample_session = [''Alice'', ''Bob''] \<and>
   sessionId injected_request = ''s1'' \<and>
   pos_x (style injected_request) = JStr injected_x \<and>
   fst (api_test sample_env injected_request sample_world) =
     Preview (Png ''/srv/uploads/model.png'' injected_svg)"
proof -
  have n: "sample_NumberToString 800 = ''800''" "sample_NumberToString 600 = ''600''"
    "sample_NumberToString 200 = ''200''" "sample_NumberToString 48 = ''48''"
    by code_simp+
  have "buildSVGText sample_env ''Alice'' (sample_style\<lparr>pos_x := JStr injected_x\<rparr>) 800 600 = injected_svg"
    by (simp add: buildSVGText_def svg_markup_def layer_of_def sample_style_def sample_env_def
        escape_markup_def replace_char_def or_json_def truthy_def number_or_def ToNumber_def
        ToString_def String_of_number_def n injected_x_def injected_svg_def)
  then show ?thesis
    by (simp add: api_test_def sample_env_def injected_request_def sample_request_def
        sample_world_def sample_session_def no_model_def composeImageWithText_def path_join_def
        ensure_dir_def existsSync_def dim_or_def Let_def)
qed

section \<open>Properties of the extraction from files\<close>

text \<open>
  C5 (as amended). For a \<open>.csv\<close> file a failed read is an error for the caller; for \<open>.xlsx\<close>,
  \<open>.xls\<close> and \<open>.docx\<close> any failure of the library, read or parse, is an error for the caller.
  A PDF that is read and fails to parse gives the empty list and a warning. For any other
  extension a failed read gives the empty list, without a warning. An error reaches the
  caller for no other extension than \<open>.csv\<close>, \<open>.xlsx\<close>, \<open>.xls\<close> and \<open>.docx\<close>.
\<close>

theorem extractNamesFromFile_errors:
  "(toLowerCase ext = ''.csv'' \<and> readFileSync rd p = None \<longrightarrow>
      fst (extractNamesFromFile rd ext p) = Inl ReadError) \<and>
   ((toLowerCase ext = ''.xlsx'' \<or> toLowerCase ext = ''.xls'') \<and> xlsx_cells rd p = Inl err \<longrightarrow>
      fst (extractNamesFromFile rd ext p) = Inl err) \<and>
   (toLowerCase ext = ''.docx'' \<and> mammoth_text rd p = Inl err \<longrightarrow>
      fst (extractNamesFromFile rd ext p) = Inl err) \<and>
   (toLowerCase ext = ''.pdf'' \<and> readFileSync rd p = Some buf \<and> pdf_text rd buf = None \<longrightarrow>
      extractNamesFromFile rd ext p = (Inr [], True)) \<and>
   (toLowerCase ext \<notin> {''.csv'', ''.xlsx'', ''.xls'', ''.docx'', ''.pdf''} \<and> readFileSync rd p = None \<longrightarrow>
      extractNamesFromFile rd ext p = (Inr [], False)) \<and>
   (fst (extractNamesFromFile rd ext p) = Inl err \<longrightarrow>
      toLowerCase ext \<in> {''.csv'', ''.xlsx'', ''.xls'', ''.docx''})"
  by (auto simp: extractNamesFromFile_def Let_def split: option.splits sum.splits)

text \<open>Two files that cannot be read: a CSV file and a Word document.\<close>

theorem extractNamesFromFile_errors_witness:
  "fst (extractNamesFromFile unreadable ''.CSV'' ''/srv/uploads/list.CSV'') = Inl ReadError \<and>
   fst (extractNamesFromFile unreadable ''.docx'' ''/srv/uploads/list.docx'') = Inl ReadError"
proof -
  have a: "toLowerCase ''.CSV'' = ''.csv''" by code_simp
  have b: "toLowerCase ''.docx'' = ''.docx''" by code_simp
  have r: "readFileSync unreadable ''/srv/uploads/list.CSV'' = None"
    and m: "mammoth_text unreadable ''/srv/uploads/list.docx'' = Inl ReadError"
    by (simp_all add: unreadable_def)
  show ?thesis
    using extractNamesFromFile_errors [of "''.CSV''" unreadable "''/srv/uploads/list.CSV''"]
      extractNamesFromFile_errors [of "''.docx''" unreadable "''/srv/uploads/list.docx''" ReadError]
      a b r m by blast
qed

text \<open>
  C5 as stated fails: a text file that cannot be read gives the empty list and no error, the
  failure is caught.
\<close>

theorem unreadable_file_counterexample:
  "extractNamesFromFile unreadable ''.txt'' ''/srv/uploads/list.txt'' = (Inr [], False)"
proof -
  have "toLowerCase ''.txt'' = ''.txt''" by code_simp
  then show ?thesis by (simp add: extractNamesFromFile_def unreadable_def)
qed

section \<open>Properties of the session cleanup\<close>

lemma cleanup_step_absent: "\<not> existsSync fs q \<Longrightarrow> \<not> existsSync (cleanup_step e fs p) q"
  by (simp add: cleanup_step_def existsSync_def rm_recursive_def)

lemma cleanup_steps_absent: "\<not> existsSync fs q \<Longrightarrow> \<not> existsSync (foldl (cleanup_step e) fs ps) q"
  by (induction ps arbitrary: fs) (simp_all add: cleanup_step_absent)

lemma cleanup_step_removes: "rm_ok e p \<Longrightarrow> \<not> existsSync (cleanup_step e fs p) p"
  by (simp add: cleanup_step_def existsSync_def rm_recursive_def)

lemma cleanup_steps_remove:
  "p \<in> set ps \<Longrightarrow> rm_ok e p \<Longrightarrow> \<not> existsSync (foldl (cleanup_step e) fs ps) p"
proof (induction ps arbitrary: fs)
  case Nil
  then show ?case by simp
next
  case (Cons q ps)
  show ?case
  proof (cases "p = q")
    case True
    with Cons.prems have "\<not> existsSync (cleanup_step e fs q) p" by (simp add: cleanup_step_removes)
    then show ?thesis by (simp add: cleanup_steps_absent)
  next
    case False
    with Cons show ?thesis by simp
  qed
qed

text \<open>
  C6 (as amended). After a download attempt has ended, the session has been cleaned up: its
  entry is gone, and every path of its cleanup registry whose removal does not fail no longer
  exists.
\<close>

theorem cleanupSession_best_effort:
  assumes "api_download e i w = (Download z ok, w')" and "sessions w i = Some s"
  shows "w' = cleanupSession e i w \<and> sessions w' i = None \<and>
         (\<forall>p \<in> set (cleanup s). rm_ok e p \<longrightarrow> \<not> existsSync (files w') p)"
proof -
  from assms have w': "w' = cleanupSession e i w"
    by (auto simp: api_download_def Let_def split: if_splits)
  have "sessions (cleanupSession e i w) i = None"
    using assms(2) by (simp add: cleanupSession_def)
  moreover have "\<forall>p \<in> set (cleanup s). rm_ok e p \<longrightarrow> \<not> existsSync (files (cleanupSession e i w)) p"
    using assms(2) by (simp add: cleanupSession_def cleanup_steps_remove)
  ultimately show ?thesis using w' by simp
qed

text \<open>A download in the sample world after a generation.\<close>

theorem cleanupSession_best_effort_witness:
  "sessions (snd (api_download sample_env ''s1'' generated_world)) ''s1'' = None \<and>
   \<not> existsSync (files (snd (api_download sample_env ''s1'' generated_world))) ''/srv/uploads/model.png'' \<and>
   \<not> existsSync (files (snd (api_download sample_env ''s1'' generated_world))) ''/srv/work/s1''"
proof -
  obtain w' where d: "api_download sample_env ''s1'' generated_world =
      (Download ''/srv/work/s1/invitations.zip'' True, w')"
    by (simp add: api_download_def generated_world_def sample_env_def path_join_def existsSync_def Let_def)
  have s: "sessions generated_world ''s1'' = Some generated_session"
    by (simp add: generated_world_def)
  have m: "''/srv/uploads/model.png'' \<in> set (cleanup generated_session)"
    and k: "''/srv/work/s1'' \<in> set (cleanup generated_session)"
    by (simp_all add: generated_session_def sample_session_def)
  have ok: "\<And>p. rm_ok sample_env p" by (simp add: sample_env_def)
  from cleanupSession_best_effort [OF d s] m k ok show ?thesis unfolding d by auto
qed

text \<open>
  C6 as stated fails: where the removal of a registered path throws, the error is ignored
  and the path is still there after the session is gone.
\<close>

theorem removal_failure_counterexample:
  "sessions generated_world ''s1'' = Some generated_session \<and>
   ''/srv/uploads/model.png'' \<in> set (cleanup generated_session) \<and>
   existsSync (files (snd (api_download locked_env ''s1'' generated_world))) ''/srv/uploads/model.png''"
  by (simp add: api_download_def generated_world_def generated_session_def sample_session_def
      locked_env_def sample_env_def path_join_def existsSync_def cleanupSession_def cleanup_step_def
      Let_def)

section \<open>Properties of the generation\<close>

text \<open>
  C4, at an input where the code breaks it. A generation in JPEG format whose first conversion
  fails answers with an error, leaves the temporary PNG of the first name in the output
  directory, and does not register the work directory of the session for cleanup.
\<close>

theorem jpg_conversion_failure_leaves_png:
  "fst (api_generate no_jpeg_env sample_request sample_world) = Failure 500 ''Generation failed.'' \<and>
   existsSync (files (snd (api_generate no_jpeg_env sample_request sample_world)))
     ''/srv/work/s1/all/001-Alice.png'' \<and>
   sessions (snd (api_generate no_jpeg_env sample_request sample_world)) ''s1'' = Some sample_session \<and>
   ''/srv/work/s1'' \<notin> set (cleanup sample_session)"
proof -
  have li: "loop_indices 0 2 = [0, 1]" by code_simp
  have f0: "artifact_filename 0 ''Alice'' ''jpg'' = ''001-Alice.jpg''" by code_simp
  have t0: "png_of_jpg ''/srv/work/s1/all/001-Alice.jpg'' = ''/srv/work/s1/all/001-Alice.png''"
    by code_simp
  show ?thesis
    by (simp add: api_generate_def sample_request_def sample_world_def sample_session_def
        no_jpeg_env_def sample_env_def no_model_def window_start_def endExclusive_def batchSize_def
        ToNumber_def is_index_def li f0 t0 path_join_def ensure_dir_def ensure_dirs_def
        existsSync_def composeImageWithText_def to_jpeg_def generate_step_def Let_def)
qed

lemma png_of_jpg_suffix: "png_of_jpg (q @ ''.jpg'') = q @ ''.png''"
  by (simp add: png_of_jpg_def)

lemma png_of_jpg_artifact:
  "png_of_jpg (path_join od (artifact_filename idx name ''jpg'')) =
     path_join od (artifact_filename idx name ''png'')"
  using png_of_jpg_suffix [of "od @ ''/'' @ index_prefix idx @ ''-'' @ sanitize name"]
  by (simp add: path_join_def artifact_filename_def)

lemma compose_frame:
  "composeImageWithText e mp out t ov fs = (r, fs') \<Longrightarrow> k \<noteq> out \<Longrightarrow> fs' k = fs k"
  by (auto simp: composeImageWithText_def Let_def split: option.splits if_splits prod.splits)

lemma generate_step_frame:
  assumes "generate_step e mp ns ov ext od idx fs = (r, fs')"
    and "ext = ''png'' \<or> ext = ''jpg''" and "\<forall>f. k \<noteq> path_join od f"
  shows "fs' k = fs k"
proof -
  have k1: "k \<noteq> path_join od (artifact_filename \<lfloor>idx\<rfloor> (ns ! nat \<lfloor>idx\<rfloor>) ext)"
    and k2: "k \<noteq> path_join od (artifact_filename \<lfloor>idx\<rfloor> (ns ! nat \<lfloor>idx\<rfloor>) ''png'')"
    using assms(3) by blast+
  show ?thesis
    using assms(1,2) k1 k2
    by (auto simp: generate_step_def Let_def png_of_jpg_artifact composeImageWithText_def
        split: if_splits prod.splits sum.splits option.splits)
qed

lemma generate_loop_frame:
  assumes "generate_loop e mp ns ov ext od idxs fs = (r, fs')"
    and "ext = ''png'' \<or> ext = ''jpg''" and "\<forall>f. k \<noteq> path_join od f"
  shows "fs' k = fs k"
  using assms(1)
proof (induction idxs arbitrary: fs)
  case Nil
  then show ?case by simp
next
  case (Cons idx rest)
  obtain r1 fs1 where st: "generate_step e mp ns ov ext od idx fs = (r1, fs1)"
    by (cases "generate_step e mp ns ov ext od idx fs")
  have f1: "fs1 k = fs k" using generate_step_frame [OF st assms(2,3)] .
  show ?case
  proof (cases r1)
    case (Inl err)
    with Cons.prems st f1 show ?thesis by simp
  next
    case (Inr u)
    with Cons.prems st have "generate_loop e mp ns ov ext od rest fs1 = (r, fs')" by simp
    then have "fs' k = fs1 k" by (rule Cons.IH)
    with f1 show ?thesis by simp
  qed
qed

lemma generate_step_rel:
  assumes "generate_step e mp ns ov ext od idx a = (r, a')"
    and "generate_step e mp ns ov ext od idx b = (r2, b')"
  shows "r2 = r \<and> (\<forall>k. a' k = b' k \<or> (a' k = a k \<and> b' k = b k))"
  using assms
  by (auto simp: generate_step_def Let_def composeImageWithText_def to_jpeg_def
      split: if_splits prod.splits sum.splits option.splits)

lemma generate_loop_rel:
  assumes "generate_loop e mp ns ov ext od idxs a = (r, a')"
    and "generate_loop e mp ns ov ext od idxs b = (r2, b')"
  shows "r2 = r \<and> (\<forall>k. a' k = b' k \<or> (a' k = a k \<and> b' k = b k))"
  using assms
proof (induction idxs arbitrary: a b)
  case Nil
  then show ?case by auto
next
  case (Cons idx rest)
  obtain ra a1 where sa: "generate_step e mp ns ov ext od idx a = (ra, a1)"
    by (cases "generate_step e mp ns ov ext od idx a")
  obtain rb b1 where sb: "generate_step e mp ns ov ext od idx b = (rb, b1)"
    by (cases "generate_step e mp ns ov ext od idx b")
  from generate_step_rel [OF sa sb]
  have rr: "rb = ra" and k1: "\<forall>k. a1 k = b1 k \<or> (a1 k = a k \<and> b1 k = b k)" by simp_all
  show ?case
  proof (cases ra)
    case (Inl err)
    with Cons.prems sa sb rr k1 show ?thesis by auto
  next
    case (Inr u)
    with Cons.prems sa sb rr
    have la: "generate_loop e mp ns ov ext od rest a1 = (r, a')"
      and lb: "generate_loop e mp ns ov ext od rest b1 = (r2, b')" by simp_all
    from Cons.IH [OF la lb]
    have "r2 = r" and k2: "\<forall>k. a' k = b' k \<or> (a' k = a1 k \<and> b' k = b1 k)" by simp_all
    with k1 show ?thesis by metis
  qed
qed

lemma dir_images_other:
  assumes "\<forall>f. z \<noteq> path_join od f"
  shows "dir_images (fs(z \<mapsto> v)) od = dir_images fs od"
proof
  fix name
  have "path_join od name \<noteq> z" using assms by metis
  then show "dir_images (fs(z \<mapsto> v)) od name = dir_images fs od name"
    by (simp add: dir_images_def)
qed

text \<open>
  C8. When a generation call has succeeded, the same call on the world it left succeeds with
  the same answer (same count, offset and total) and leaves every file as it was: the
  artifacts and the archive are written over, the archive holds the images of the output
  directory under the same names, and nothing is added.
\<close>

theorem api_generate_idempotent:
  assumes "api_generate e req w = (Generated url cnt st tot, w1)"
  shows "\<exists>w2. api_generate e req w1 = (Generated url cnt st tot, w2) \<and> files w2 = files w1 \<and>
           files w1 (path_join (path_join (workDir e) (sessionId req)) ''invitations.zip'') =
             Some (Zip (dir_images (files w1) (path_join (path_join (workDir e) (sessionId req)) ''all'')))"
proof -
  define sd where "sd = path_join (workDir e) (sessionId req)"
  define od where "od = path_join sd ''all''"
  define zp where "zp = path_join sd ''invitations.zip''"
  define ext where "ext = (if req_format req = JStr ''jpg'' \<or> req_format req = JStr ''jpeg'' then ''jpg'' else ''png'')"
  define idxs where "idxs s0 = loop_indices (window_start (ToNumber e (req_offset req)))
      (endExclusive (length (names s0)) (ToNumber e (req_offset req)) (ToNumber e (req_limit req)))"
    for s0 :: session
  have ext: "ext = ''png'' \<or> ext = ''jpg''" by (simp add: ext_def)
  have od_ne: "od \<noteq> []" by (simp add: od_def path_join_def)
  have od_out: "\<forall>f. od \<noteq> path_join od f"
    and zp_out: "\<forall>f. zp \<noteq> path_join od f" and zp_od: "zp \<noteq> od"
    by (simp_all add: od_def zp_def path_join_def)
  from assms obtain s where s: "sessions w (sessionId req) = Some s"
    by (auto simp: api_generate_def split: option.splits)
  from assms s have ok: "\<not> (no_model s \<or> names s = [])"
    by (auto simp: api_generate_def split: if_splits)
  define fs0 where "fs0 = ensure_dirs (files w) sd od"
  obtain r fs1 where loop: "generate_loop e (the (modelPath s)) (names s) (style req) ext od (idxs s) fs0 = (r, fs1)"
    by (cases "generate_loop e (the (modelPath s)) (names s) (style req) ext od (idxs s) fs0")
  define fs2 where "fs2 = fs1(zp \<mapsto> Zip (dir_images fs1 od))"
  define s' where "s' = s\<lparr>cleanup := cleanup s @ [sd]\<rparr>"
  from assms s ok loop have res: "r = Inr ()" "archive_ok e od"
    "w1 = w\<lparr>files := fs2, sessions := (sessions w)(sessionId req \<mapsto> s')\<rparr>"
    "url = ''/api/download/'' @ sessionId req"
    "cnt = endExclusive (length (names s)) (ToNumber e (req_offset req)) (ToNumber e (req_limit req))
       - window_start (ToNumber e (req_offset req))"
    "st = window_start (ToNumber e (req_offset req))" "tot = length (names s)"
    by (auto simp: api_generate_def Let_def sd_def[symmetric] od_def[symmetric] zp_def[symmetric]
        ext_def[symmetric] idxs_def[symmetric] fs0_def[symmetric] fs2_def s'_def
        split: if_splits sum.splits)
  have s1: "sessions w1 (sessionId req) = Some s'" by (simp add: res(3))
  have ok': "\<not> (no_model s' \<or> names s' = [])" using ok by (simp add: s'_def no_model_def)
  have same: "modelPath s' = modelPath s" "names s' = names s" by (simp_all add: s'_def)
  have f1: "files w1 = fs2" by (simp add: res(3))
  have "existsSync fs0 od"
    unfolding fs0_def using od_ne by (simp add: ensure_dirs_def existsSync_def)
  moreover have "fs1 od = fs0 od"
    using generate_loop_frame [OF loop ext od_out] by simp
  ultimately have od2: "existsSync fs2 od"
    using zp_od by (simp add: fs2_def existsSync_def)
  obtain r2 b' where loop2: "generate_loop e (the (modelPath s)) (names s) (style req) ext od (idxs s) fs2 = (r2, b')"
    by (cases "generate_loop e (the (modelPath s)) (names s) (style req) ext od (idxs s) fs2")
  from generate_loop_rel [OF loop loop2]
  have r2: "r2 = Inr ()" and rel: "\<forall>k. fs1 k = b' k \<or> (fs1 k = fs0 k \<and> b' k = fs2 k)"
    using res(1) by simp_all
  have bz: "b' zp = fs2 zp" using generate_loop_frame [OF loop2 ext zp_out] .
  have b': "b' = fs2"
  proof
    fix k
    show "b' k = fs2 k"
    proof (cases "k = zp")
      case True
      with bz show ?thesis by simp
    next
      case False
      then have "fs2 k = fs1 k" by (simp add: fs2_def)
      with rel show ?thesis by metis
    qed
  qed
  have di: "dir_images fs2 od = dir_images fs1 od"
    unfolding fs2_def using zp_out by (rule dir_images_other)
  have z2: "fs2(zp \<mapsto> Zip (dir_images fs2 od)) = fs2"
    by (simp add: di) (simp add: fs2_def)
  have call2: "api_generate e req w1 =
      (Generated url cnt st tot,
       w1\<lparr>files := fs2, sessions := (sessions w1)(sessionId req \<mapsto> s'\<lparr>cleanup := cleanup s' @ [sd]\<rparr>)\<rparr>)"
    using s1 ok' loop2 r2 b' res(2)
    by (simp add: api_generate_def Let_def sd_def[symmetric] od_def[symmetric] zp_def[symmetric]
        ext_def[symmetric] same idxs_def[symmetric] f1 od2 ensure_dirs_def z2 res(4,5,6,7))
  have "files w1 zp = Some (Zip (dir_images (files w1) od))"
    by (simp add: f1 di) (simp add: fs2_def)
  with call2 show ?thesis
    by (simp add: f1 sd_def od_def zp_def)
qed

text \<open>The sample request, in JPEG format over the two names, run twice.\<close>

theorem api_generate_idempotent_witness:
  "\<exists>w1 w2. api_generate sample_env sample_request sample_world =
               (Generated ''/api/download/s1'' 2 0 2, w1) \<and>
            api_generate sample_env sample_request w1 = (Generated ''/api/download/s1'' 2 0 2, w2) \<and>
            files w2 = files w1 \<and>
            existsSync (files w2) ''/srv/work/s1/all/001-Alice.jpg'' \<and>
            existsSync (files w2) ''/srv/work/s1/all/002-Bob.jpg'' \<and>
            \<not> existsSync (files w2) ''/srv/work/s1/all/001-Alice.png''"
proof -
  have li: "loop_indices 0 2 = [0, 1]" by code_simp
  have f0: "artifact_filename 0 ''Alice'' ''jpg'' = ''001-Alice.jpg''"
    and f1: "artifact_filename 1 ''Bob'' ''jpg'' = ''002-Bob.jpg''" by code_simp+
  have t0: "png_of_jpg ''/srv/work/s1/all/001-Alice.jpg'' = ''/srv/work/s1/all/001-Alice.png''"
    and t1: "png_of_jpg ''/srv/work/s1/all/002-Bob.jpg'' = ''/srv/work/s1/all/002-Bob.png''"
    by code_simp+
  obtain w1 where g: "api_generate sample_env sample_request sample_world =
      (Generated ''/api/download/s1'' 2 0 2, w1)"
    and a: "existsSync (files w1) ''/srv/work/s1/all/001-Alice.jpg''"
    and b: "existsSync (files w1) ''/srv/work/s1/all/002-Bob.jpg''"
    and c: "\<not> existsSync (files w1) ''/srv/work/s1/all/001-Alice.png''"
    by (simp add: api_generate_def sample_request_def sample_world_def sample_session_def
        sample_env_def no_model_def window_start_def endExclusive_def batchSize_def
        ToNumber_def is_index_def li f0 f1 t0 t1 path_join_def ensure_dir_def ensure_dirs_def
        existsSync_def composeImageWithText_def to_jpeg_def generate_step_def Let_def)
  from api_generate_idempotent [OF g] obtain w2 where
    "api_generate sample_env sample_request w1 = (Generated ''/api/download/s1'' 2 0 2, w2)"
    "files w2 = files w1" by blast
  with g a b c show ?thesis by auto
qed

end
